theory Spec2Isabelle
  imports Main "HOL-Library.Word" "HOL-Library.List_Lexorder" "HOL-Library.Char_ord"
    "HOL-Library.Sublist" "HOL-Library.Monad_Syntax"
begin

unbundle bit_operations_syntax

section \<open>The resolver (query.c)\<close>

text \<open>
  The query is the I/O buffer of \<^verbatim>\<open>struct query\<close>: \<open>iobuf\<close> holds the received
  message (the list is the whole array, so its length is the capacity), \<open>iobufptr\<close> is
  the offset of the end of the data, \<open>maxlen\<close> the largest reply. A read or write of the
  C code that leaves an array is the outcome \<open>Fault\<close> of the model.
\<close>

type_synonym byte = "8 word"
























text \<open>
  The database of db.h is not in the sources either: it is a parameter of the model. A
  domain has the delegation flag and its precompiled answers by type; the database has
  the three depth masks read by \<^verbatim>\<open>TSTMASK\<close> and the lookup by name. An answer is the
  three counts as they lie in memory (six octets), the offsets of the compression
  pointers, the offsets of the RRs, and the data.
\<close>

record answer =
  a_counts :: "byte list"
  a_ptrs :: "nat list"
  a_rrs :: "nat list"
  a_data :: "byte list"

record db_domain =
  d_delegation :: bool
  d_answers :: "nat \<Rightarrow> answer option"

record db =
  mask_data :: "int \<Rightarrow> bool"
  mask_auth :: "int \<Rightarrow> bool"
  mask_stars :: "int \<Rightarrow> bool"
  db_lookup :: "byte list \<Rightarrow> db_domain option"


subsection \<open>query_addanswer\<close>






subsection \<open>query_process\<close>

















subsection \<open>What the claims about the resolver are stated with\<close>












subsection \<open>Lemmas about the header and query_addanswer\<close>























subsection \<open>The count checks\<close>




subsection \<open>The class of the question\<close>










section \<open>The transfer coordinator (xfrd.c)\<close>

subsection \<open>State\<close>

datatype xfrd_zone_state = xfrd_zone_ok | xfrd_zone_refreshing | xfrd_zone_expired

datatype xfrd_packet_result =
  xfrd_packet_bad | xfrd_packet_more | xfrd_packet_tcp | xfrd_packet_transfer
| xfrd_packet_newlease

text \<open>
  The SOA fields are kept in host order: the source stores them in network order and
  wraps every use in \<^verbatim>\<open>ntohl\<close>.
\<close>

record xfrd_soa =
  ttl :: "32 word"
  prim_ns :: "byte list"
  email :: "byte list"
  serial :: "32 word"
  refresh :: "32 word"
  retry :: "32 word"
  expire :: "32 word"
  minimum :: "32 word"

datatype tsig_status = TSIG_NOT_PRESENT | TSIG_OK | TSIG_ERROR

text \<open>
  Modelled from the spec: tsig.c is not in the sources. The record keeps what
  \<^verbatim>\<open>tsig_find_rr\<close> found, the number of updates since the last prepare, and the
  running hash as the list of the octet strings digested since the last prepare
  (\<open>digested\<close>): an update appends to it and counts, a prepare resets both.
\<close>

record tsig_record =
  status :: tsig_status
  position :: nat
  updates_since_last_prepare :: nat
  digested :: "byte list list"

text \<open>
  The fields of \<^verbatim>\<open>xfrd_zone_t\<close> the handlers read or write (\<open>zone_tsig\<close> is the
  field \<^verbatim>\<open>tsig\<close>, \<open>master_has_key\<close> is \<^verbatim>\<open>master->key_options\<close> being set,
  \<open>timeout\<close> is the handler's timeout in seconds, \<open>None\<close> when none is set).
\<close>

record xfrd_zone =
  apex_str :: string
  state :: xfrd_zone_state
  dirty :: bool
  soa_nsd :: xfrd_soa
  soa_nsd_acquired :: nat
  soa_disk :: xfrd_soa
  soa_disk_acquired :: nat
  soa_notified :: xfrd_soa
  soa_notified_acquired :: nat
  master_has_key :: bool
  zone_tsig :: tsig_record
  query_id :: nat
  msg_seq_nr :: nat
  msg_rr_count :: nat
  msg_old_serial :: "32 word"
  msg_new_serial :: "32 word"
  msg_is_ixfr :: nat
  tcp_conn :: int
  round_num :: int
  timeout :: "nat option"

datatype diff_note =
  Rollback_note "32 word" nat nat
| Update_note "32 word" nat nat bool

datatype diff_entry =
  Diff_packet string "32 word" nat nat "byte list"
| Diff_commit string "32 word" "32 word" nat nat nat diff_note

text \<open>
  The process-wide state the handlers touch: the clock of \<^verbatim>\<open>xfrd_time\<close>, the
  values \<^verbatim>\<open>random()\<close> returns (a sequence and how many were drawn), the verifier of
  tsig.c (a parameter), the difflog, the queue of zones with an expiry notification,
  and the reload bookkeeping. \<open>xfrd_reload_timeout\<close> is the configured option
  (\<open>-1\<close> disables the automatic reload).
\<close>

record xfrd_state =
  current_time :: nat
  random_values :: "nat \<Rightarrow> nat"
  random_drawn :: nat
  tsig_verify :: "tsig_record \<Rightarrow> bool"
  difflog :: "diff_entry list"
  dirty_zones :: "string list"
  ipc_write :: bool
  need_to_send_reload :: bool
  reload_timeout_sec :: nat
  reload_handler_armed :: bool
  xfrd_reload_timeout :: int

text \<open>
  A received message as the parsing functions of packet.h and buffer.h see it (they are
  not in the sources): the header fields, whether the header fits, whether every
  question can be skipped, and the RRs of the answer section one by one: an RR that
  cannot be parsed (its name, its ten fixed octets, its rdata, or the SOA fields of an
  RR of type SOA and class IN), an RR of another type, or a SOA with its fields.
  \<open>pkt_tsig\<close> is what \<^verbatim>\<open>tsig_find_rr\<close> returns on it: \<open>None\<close> for a malformed
  TSIG RR, otherwise the status and the position of the TSIG RR.
\<close>

datatype wire_rr = RR_malformed | RR_other nat | RR_soa xfrd_soa

record xfr_packet =
  pkt_octets :: "byte list"
  pkt_limit :: nat
  pkt_header_fits :: bool
  pkt_id :: nat
  pkt_rcode :: nat
  pkt_tc :: bool
  pkt_qdcount :: nat
  pkt_ancount :: nat
  pkt_arcount :: nat
  pkt_questions_ok :: bool
  pkt_answers :: "wire_rr list"
  pkt_tsig :: "(tsig_status \<times> nat) option"

definition XFRD_TRANSFER_TIMEOUT :: nat where "XFRD_TRANSFER_TIMEOUT = 10"
definition XFRD_LOWERBOUND_REFRESH :: nat where "XFRD_LOWERBOUND_REFRESH = 1"
definition XFRD_LOWERBOUND_RETRY :: nat where "XFRD_LOWERBOUND_RETRY = 1"
definition XFRD_TSIG_MAX_UNSIGNED :: nat where "XFRD_TSIG_MAX_UNSIGNED = 103"

text \<open>
  Modelled from the spec: \<^verbatim>\<open>compare_serial\<close> of util.c is not in the sources. The
  spec's rule is RFC 1982: \<open>a < b\<close> iff \<open>(b - a) mod 2^32\<close> lies strictly between 0
  and \<open>2^31\<close>. The result is negative, zero or positive.
\<close>

definition compare_serial :: "32 word \<Rightarrow> 32 word \<Rightarrow> int" where
  "compare_serial a b =
     (if a = b then 0 else if b - a < 2 ^ 31 then - 1 else 1)"

subsection \<open>Timers and zone state\<close>

definition xfrd_time :: "xfrd_state \<Rightarrow> nat" where
  "xfrd_time x = current_time x"

definition random_draw :: "xfrd_state \<Rightarrow> nat \<times> xfrd_state" where
  "random_draw x = (random_values x (random_drawn x), x\<lparr>random_drawn := random_drawn x + 1\<rparr>)"

definition xfrd_set_timer :: "xfrd_state \<Rightarrow> xfrd_zone \<Rightarrow> nat \<Rightarrow> xfrd_state \<times> xfrd_zone" where
  "xfrd_set_timer x zone t =
     (if xfrd_time x + 10 < t then
        let extra = t - xfrd_time x;
            base = extra * 9 div 10;
            (r, x1) = random_draw x
        in (x1, zone\<lparr>timeout := Some (xfrd_time x + base + r mod (extra - base))\<rparr>)
      else (x, zone\<lparr>timeout := Some t\<rparr>))"

definition xfrd_set_timer_retry :: "xfrd_state \<Rightarrow> xfrd_zone \<Rightarrow> xfrd_state \<times> xfrd_zone" where
  "xfrd_set_timer_retry x zone =
     (if soa_disk_acquired zone = 0 then
        let (r, x1) = random_draw x in
        xfrd_set_timer x1 zone (xfrd_time x1 + XFRD_TRANSFER_TIMEOUT + r mod XFRD_TRANSFER_TIMEOUT)
      else if state zone = xfrd_zone_expired \<or>
              xfrd_time x + unat (retry (soa_disk zone)) <
                soa_disk_acquired zone + unat (expire (soa_disk zone)) then
        (if unat (retry (soa_disk zone)) < XFRD_LOWERBOUND_RETRY
         then xfrd_set_timer x zone (xfrd_time x + XFRD_LOWERBOUND_RETRY)
         else xfrd_set_timer x zone (xfrd_time x + unat (retry (soa_disk zone))))
      else
        (if unat (expire (soa_disk zone)) < XFRD_LOWERBOUND_RETRY
         then xfrd_set_timer x zone (xfrd_time x + XFRD_LOWERBOUND_RETRY)
         else xfrd_set_timer x zone (soa_disk_acquired zone + unat (expire (soa_disk zone)))))"

definition xfrd_set_timer_refresh :: "xfrd_state \<Rightarrow> xfrd_zone \<Rightarrow> xfrd_state \<times> xfrd_zone" where
  "xfrd_set_timer_refresh x zone =
     (if soa_disk_acquired zone = 0 \<or> state zone \<noteq> xfrd_zone_ok then xfrd_set_timer_retry x zone
      else
        let set_refresh = soa_disk_acquired zone + unat (refresh (soa_disk zone));
            set_expire = soa_disk_acquired zone + unat (expire (soa_disk zone));
            set0 = (if set_refresh < set_expire then set_refresh else set_expire);
            set_min = soa_disk_acquired zone + XFRD_LOWERBOUND_REFRESH;
            set1 = (if set0 < set_min then set_min else set0)
        in xfrd_set_timer x zone set1)"

definition xfrd_send_expire_notification :: "xfrd_state \<Rightarrow> xfrd_zone \<Rightarrow> xfrd_state \<times> xfrd_zone" where
  "xfrd_send_expire_notification x zone =
     (if dirty zone then (x, zone)
      else (x\<lparr>dirty_zones := apex_str zone # dirty_zones x, ipc_write := True\<rparr>,
            zone\<lparr>dirty := True\<rparr>))"

definition xfrd_set_zone_state ::
  "xfrd_state \<Rightarrow> xfrd_zone \<Rightarrow> xfrd_zone_state \<Rightarrow> xfrd_state \<times> xfrd_zone" where
  "xfrd_set_zone_state x zone s =
     (if s \<noteq> state zone then
        let old = state zone; zone1 = zone\<lparr>state := s\<rparr> in
        if s = xfrd_zone_expired \<or> old = xfrd_zone_expired
        then xfrd_send_expire_notification x zone1
        else (x, zone1)
      else (x, zone))"

definition xfrd_set_reload_timeout :: "xfrd_state \<Rightarrow> xfrd_state" where
  "xfrd_set_reload_timeout x =
     (if xfrd_reload_timeout x = - 1 then x
      else if reload_timeout_sec x = 0 \<or> reload_timeout_sec x \<le> xfrd_time x then
        x\<lparr>need_to_send_reload := True, ipc_write := True,
          reload_timeout_sec := nat (int (xfrd_time x) + xfrd_reload_timeout x)\<rparr>
      else x\<lparr>reload_handler_armed := True\<rparr>)"

text \<open>\<open>soa\<close> is \<open>None\<close> for the null pointer of the source.\<close>

definition xfrd_handle_incoming_notify ::
  "xfrd_state \<Rightarrow> xfrd_zone \<Rightarrow> xfrd_soa option \<Rightarrow> bool \<times> xfrd_state \<times> xfrd_zone" where
  "xfrd_handle_incoming_notify x zone soa =
     (if (case soa of None \<Rightarrow> False
          | Some s \<Rightarrow> soa_disk_acquired zone \<noteq> 0 \<and> state zone \<noteq> xfrd_zone_expired \<and>
                      compare_serial (serial s) (serial (soa_disk zone)) \<le> 0)
      then (False, x, zone)
      else
        let zone1 =
              (case soa of
                 None \<Rightarrow> zone\<lparr>soa_notified := (soa_notified zone)\<lparr>serial := 0\<rparr>\<rparr>
               | Some s \<Rightarrow>
                   if soa_notified_acquired zone = 0 \<or> serial (soa_notified zone) = 0 \<or>
                      0 < compare_serial (serial s) (serial (soa_notified zone))
                   then zone\<lparr>soa_notified := s\<rparr> else zone);
            zone2 = zone1\<lparr>soa_notified_acquired := xfrd_time x\<rparr>;
            (x1, zone3) = (if state zone2 = xfrd_zone_ok
                           then xfrd_set_zone_state x zone2 xfrd_zone_refreshing
                           else (x, zone2))
        in (True, x1, zone3))"

subsection \<open>TSIG on a reply\<close>

definition tsig_update :: "tsig_record \<Rightarrow> xfr_packet \<Rightarrow> nat \<Rightarrow> tsig_record" where
  "tsig_update t p n =
     t\<lparr>digested := digested t @ [take n (pkt_octets p)],
       updates_since_last_prepare := updates_since_last_prepare t + 1\<rparr>"

definition tsig_prepare :: "tsig_record \<Rightarrow> tsig_record" where
  "tsig_prepare t = t\<lparr>digested := [], updates_since_last_prepare := 0\<rparr>"

definition xfrd_xfr_process_tsig ::
  "xfrd_state \<Rightarrow> xfrd_zone \<Rightarrow> xfr_packet \<Rightarrow> bool \<times> xfrd_zone \<times> xfr_packet" where
  "xfrd_xfr_process_tsig x zone packet =
     (case pkt_tsig packet of
        None \<Rightarrow> (False, zone, packet)
      | Some (st, pos) \<Rightarrow>
          let t1 = (zone_tsig zone)\<lparr>status := st, position := pos\<rparr>;
              have_tsig = (st = TSIG_OK);
              packet1 = (if have_tsig
                         then packet\<lparr>pkt_limit := pos,
                                     pkt_arcount := (pkt_arcount packet + 65535) mod 65536\<rparr>
                         else packet);
              t2 = tsig_update t1 packet1 (pkt_limit packet1)
          in
          if have_tsig \<and> \<not> tsig_verify x t2 then (False, zone\<lparr>zone_tsig := t2\<rparr>, packet1)
          else if \<not> have_tsig \<and> XFRD_TSIG_MAX_UNSIGNED < updates_since_last_prepare t2
            then (False, zone\<lparr>zone_tsig := t2\<rparr>, packet1)
          else
            let t3 = (if have_tsig then tsig_prepare t2 else t2) in
            if \<not> have_tsig \<and> msg_seq_nr zone = 0 then (False, zone\<lparr>zone_tsig := t3\<rparr>, packet1)
            else (True, zone\<lparr>zone_tsig := t3\<rparr>, packet1))"

subsection \<open>Parsing a reply\<close>

text \<open>
  \<^verbatim>\<open>xfrd_xfr_check_rrs\<close>: \<open>count\<close> RRs are read from what is left of the answer
  section; running out of RRs is the buffer running out. The result is whether the
  RRs parse, the zone, \<open>done\<close> and the last SOA read.
\<close>

fun xfrd_xfr_check_rrs ::
  "xfrd_zone \<Rightarrow> wire_rr list \<Rightarrow> nat \<Rightarrow> bool \<Rightarrow> xfrd_soa \<Rightarrow> bool \<times> xfrd_zone \<times> bool \<times> xfrd_soa" where
  "xfrd_xfr_check_rrs zone rrs 0 done soa = (True, zone, done, soa)"
| "xfrd_xfr_check_rrs zone [] (Suc n) done soa = (False, zone, done, soa)"
| "xfrd_xfr_check_rrs zone (RR_malformed # rrs) (Suc n) done soa = (False, zone, done, soa)"
| "xfrd_xfr_check_rrs zone (RR_other t # rrs) (Suc n) done soa =
     xfrd_xfr_check_rrs (zone\<lparr>msg_rr_count := msg_rr_count zone + 1\<rparr>) rrs n done soa"
| "xfrd_xfr_check_rrs zone (RR_soa s # rrs) (Suc n) done soa =
     (if msg_rr_count zone = 1 \<and> serial s \<noteq> msg_new_serial zone then
        let zone1 = zone\<lparr>msg_is_ixfr := 1\<rparr> in
        if soa_disk_acquired zone1 = 0 then (False, zone1, done, s)
        else if serial s \<noteq> serial (soa_disk zone1) then (False, zone1, done, s)
        else xfrd_xfr_check_rrs
               (zone1\<lparr>msg_old_serial := serial s, msg_rr_count := msg_rr_count zone1 + 1\<rparr>)
               rrs n done s
      else if serial s = msg_new_serial zone then
        (if msg_is_ixfr zone = 1
         then xfrd_xfr_check_rrs
                (zone\<lparr>msg_is_ixfr := 2, msg_rr_count := msg_rr_count zone + 1\<rparr>) rrs n done s
         else xfrd_xfr_check_rrs
                (zone\<lparr>msg_rr_count := msg_rr_count zone + 1\<rparr>) rrs n True s)
      else xfrd_xfr_check_rrs (zone\<lparr>msg_rr_count := msg_rr_count zone + 1\<rparr>) rrs n done s)"

text \<open>
  The tail of \<^verbatim>\<open>xfrd_parse_received_xfr_packet\<close>, from the test of TC on: \<open>rrs\<close> and
  \<open>ancount_todo\<close> are what is left of the answer section.
\<close>

definition parse_rest ::
  "xfrd_state \<Rightarrow> xfrd_zone \<Rightarrow> xfr_packet \<Rightarrow> xfrd_soa \<Rightarrow> wire_rr list \<Rightarrow> nat \<Rightarrow>
   xfrd_packet_result \<times> xfrd_state \<times> xfrd_zone \<times> xfr_packet \<times> xfrd_soa" where
  "parse_rest x zone packet soa rrs ancount_todo =
     (if tcp_conn zone = - 1 \<and> pkt_tc packet then (xfrd_packet_tcp, x, zone, packet, soa)
      else if tcp_conn zone = - 1 \<and> pkt_ancount packet < 2
        then (xfrd_packet_tcp, x, zone, packet, soa)
      else
        case xfrd_xfr_check_rrs zone rrs ancount_todo False soa of
          (ok, zone1, done, soa1) \<Rightarrow>
            if \<not> ok then (xfrd_packet_bad, x, zone1, packet, soa1)
            else if tcp_conn zone1 = - 1 \<and> \<not> done then (xfrd_packet_bad, x, zone1, packet, soa1)
            else if \<not> done then (xfrd_packet_more, x, zone1, packet, soa1)
            else if master_has_key zone1 \<and> updates_since_last_prepare (zone_tsig zone1) \<noteq> 0
              then (xfrd_packet_bad, x, zone1, packet, soa1)
            else (xfrd_packet_transfer, x, zone1, packet, soa1))"

text \<open>
  The block of the source for the first RR of a reply (\<open>msg_rr_count = 0\<close>): \<open>Inl\<close> is
  a return from the function, \<open>Inr\<close> goes on with the rest of the answer section.
\<close>

definition parse_first_rr ::
  "xfrd_state \<Rightarrow> xfrd_zone \<Rightarrow> xfr_packet \<Rightarrow> xfrd_soa \<Rightarrow>
   (xfrd_packet_result \<times> xfrd_state \<times> xfrd_zone \<times> xfr_packet \<times> xfrd_soa) +
   (xfrd_state \<times> xfrd_zone \<times> xfrd_soa \<times> wire_rr list \<times> nat)" where
  "parse_first_rr x zone packet soa0 =
     (case pkt_answers packet of
        RR_soa soa # rest \<Rightarrow>
          if soa_disk_acquired zone \<noteq> 0 \<and> state zone \<noteq> xfrd_zone_expired \<and>
             0 < compare_serial (serial (soa_disk zone)) (serial soa)
            then Inl (xfrd_packet_bad, x, zone, packet, soa)
          else if soa_disk_acquired zone \<noteq> 0 \<and> serial (soa_disk zone) = serial soa then
            (if soa_notified_acquired zone = 0 then
               let zone1 = zone\<lparr>soa_disk_acquired := xfrd_time x\<rparr>;
                   zone2 = (if serial (soa_nsd zone1) = serial soa
                            then zone1\<lparr>soa_nsd_acquired := xfrd_time x\<rparr> else zone1);
                   (x1, zone3) = xfrd_set_zone_state x zone2 xfrd_zone_ok;
                   zone4 = zone3\<lparr>round_num := - 1\<rparr>;
                   (x2, zone5) = xfrd_set_timer_refresh x1 zone4
               in Inl (xfrd_packet_newlease, x2, zone5, packet, soa)
             else Inl (xfrd_packet_bad, x, zone, packet, soa))
          else
            let (x1, zone1) =
                  (if pkt_ancount packet = 1 then
                     (case xfrd_handle_incoming_notify x zone (Some soa) of
                        (r, x1, zone1) \<Rightarrow> (x1, zone1))
                   else if soa_notified_acquired zone \<noteq> 0 \<and> serial (soa_notified zone) \<noteq> 0 \<and>
                           compare_serial (serial (soa_notified zone)) (serial soa) < 0
                     then (x, zone\<lparr>soa_notified := (soa_notified zone)\<lparr>serial := serial soa\<rparr>\<rparr>)
                   else (x, zone));
                zone2 = zone1\<lparr>msg_new_serial := serial soa, msg_rr_count := 1, msg_is_ixfr := 0\<rparr>;
                zone3 = (if soa_disk_acquired zone2 \<noteq> 0
                         then zone2\<lparr>msg_old_serial := serial (soa_disk zone2)\<rparr>
                         else zone2\<lparr>msg_old_serial := 0\<rparr>)
            in Inr (x1, zone3, soa, rest, pkt_ancount packet - 1)
      | _ \<Rightarrow> Inl (xfrd_packet_bad, x, zone, packet, soa0))"

definition xfrd_parse_received_xfr_packet ::
  "xfrd_state \<Rightarrow> xfrd_zone \<Rightarrow> xfr_packet \<Rightarrow> xfrd_soa \<Rightarrow>
   xfrd_packet_result \<times> xfrd_state \<times> xfrd_zone \<times> xfr_packet \<times> xfrd_soa" where
  "xfrd_parse_received_xfr_packet x zone packet soa =
     (if \<not> pkt_header_fits packet then (xfrd_packet_bad, x, zone, packet, soa)
      else if pkt_id packet \<noteq> query_id zone then (xfrd_packet_bad, x, zone, packet, soa)
      else if pkt_rcode packet \<noteq> 0 then (xfrd_packet_bad, x, zone, packet, soa)
      else
        case (if master_has_key zone then xfrd_xfr_process_tsig x zone packet
              else (True, zone, packet)) of
          (tsig_ok, zone1, packet1) \<Rightarrow>
            if \<not> tsig_ok then (xfrd_packet_bad, x, zone1, packet1, soa)
            else if \<not> pkt_questions_ok packet1 then (xfrd_packet_bad, x, zone1, packet1, soa)
            else if pkt_ancount packet = 0 then (xfrd_packet_bad, x, zone1, packet1, soa)
            else if msg_rr_count zone1 = 0 then
              (case parse_first_rr x zone1 packet1 soa of
                 Inl r \<Rightarrow> r
               | Inr (x1, zone2, soa1, rest, ancount_todo) \<Rightarrow>
                   parse_rest x1 zone2 packet1 soa1 rest ancount_todo)
            else parse_rest x zone1 packet1 soa (pkt_answers packet1) (pkt_ancount packet))"

subsection \<open>Handling a reply\<close>

definition diff_write_commit ::
  "xfrd_state \<Rightarrow> string \<Rightarrow> 32 word \<Rightarrow> 32 word \<Rightarrow> nat \<Rightarrow> nat \<Rightarrow> nat \<Rightarrow> diff_note \<Rightarrow> xfrd_state" where
  "diff_write_commit x zone_name old_serial new_serial xid parts commit note =
     x\<lparr>difflog := difflog x @ [Diff_commit zone_name old_serial new_serial xid parts commit note]\<rparr>"

definition diff_write_packet ::
  "xfrd_state \<Rightarrow> string \<Rightarrow> 32 word \<Rightarrow> nat \<Rightarrow> nat \<Rightarrow> byte list \<Rightarrow> xfrd_state" where
  "diff_write_packet x zone_name new_serial xid seq_nr octets =
     x\<lparr>difflog := difflog x @ [Diff_packet zone_name new_serial xid seq_nr octets]\<rparr>"

definition xfrd_handle_received_xfr_packet ::
  "xfrd_state \<Rightarrow> xfrd_zone \<Rightarrow> xfr_packet \<Rightarrow> xfrd_soa \<Rightarrow>
   xfrd_packet_result \<times> xfrd_state \<times> xfrd_zone" where
  "xfrd_handle_received_xfr_packet x0 zone0 packet0 soa0 =
     (case xfrd_parse_received_xfr_packet x0 zone0 packet0 soa0 of
        (res, x, zone, packet, soa) \<Rightarrow>
          if res = xfrd_packet_newlease then (xfrd_packet_newlease, x, zone)
          else if res = xfrd_packet_tcp then (xfrd_packet_tcp, x, zone)
          else if res = xfrd_packet_bad then
            (if 0 < msg_seq_nr zone then
               (xfrd_packet_bad,
                diff_write_commit x (apex_str zone) (msg_old_serial zone) (msg_new_serial zone)
                  (query_id zone) (msg_seq_nr zone) 0
                  (Rollback_note (msg_new_serial zone) (xfrd_time x) (msg_seq_nr zone)),
                zone)
             else (xfrd_packet_bad, x, zone))
          else
            let x1 = diff_write_packet x (apex_str zone) (msg_new_serial zone) (query_id zone)
                       (msg_seq_nr zone) (take (pkt_limit packet) (pkt_octets packet));
                zone1 = zone\<lparr>msg_seq_nr := msg_seq_nr zone + 1\<rparr>
            in
            if res = xfrd_packet_more then (xfrd_packet_more, x1, zone1)
            else
              let x2 = diff_write_commit x1 (apex_str zone1) (msg_old_serial zone1)
                         (msg_new_serial zone1) (query_id zone1) (msg_seq_nr zone1) 1
                         (Update_note (msg_new_serial zone1) (xfrd_time x1) (msg_seq_nr zone1)
                            (master_has_key zone1));
                  zone2 = zone1\<lparr>soa_disk_acquired := xfrd_time x2, soa_disk := soa\<rparr>;
                  zone3 = (if soa_notified_acquired zone2 \<noteq> 0 \<and>
                              (serial (soa_notified zone2) = 0 \<or>
                               0 \<le> compare_serial (serial (soa_disk zone2))
                                      (serial (soa_notified zone2)))
                           then zone2\<lparr>soa_notified_acquired := 0\<rparr> else zone2)
              in
              if soa_notified_acquired zone3 = 0 then
                let (x3, zone4) = (if state zone3 \<noteq> xfrd_zone_expired
                                   then xfrd_set_zone_state x2 zone3 xfrd_zone_ok
                                   else (x2, zone3));
                    zone5 = zone4\<lparr>round_num := - 1\<rparr>;
                    (x4, zone6) = xfrd_set_timer_refresh x3 zone5
                in (xfrd_packet_transfer, xfrd_set_reload_timeout x4, zone6)
              else (xfrd_packet_bad, xfrd_set_reload_timeout x2, zone3))"


subsection \<open>What the claims about the coordinator are stated with\<close>




text \<open>What a reply that turns out bad leaves alone in the zone.\<close>

definition same_lease :: "xfrd_zone \<Rightarrow> xfrd_zone \<Rightarrow> bool" where
  "same_lease zone1 zone \<longleftrightarrow>
     soa_disk zone1 = soa_disk zone \<and> soa_disk_acquired zone1 = soa_disk_acquired zone \<and>
     msg_seq_nr zone1 = msg_seq_nr zone \<and> apex_str zone1 = apex_str zone \<and>
     query_id zone1 = query_id zone \<and> tcp_conn zone1 = tcp_conn zone \<and>
     master_has_key zone1 = master_has_key zone"

text \<open>Inputs for the concrete evaluations.\<close>

definition soa10 :: xfrd_soa where
  "soa10 = \<lparr>ttl = 3600, prim_ns = [2, 0x6e, 0x73, 0], email = [1, 0x68, 0], serial = 10,
     refresh = 3600, retry = 600, expire = 86400, minimum = 300\<rparr>"

definition idle_tsig :: tsig_record where
  "idle_tsig = \<lparr>status = TSIG_NOT_PRESENT, position = 0, updates_since_last_prepare = 0,
     digested = []\<rparr>"

definition probing_zone :: xfrd_zone where
  "probing_zone = \<lparr>apex_str = ''example.'', state = xfrd_zone_refreshing, dirty = False,
     soa_nsd = soa10, soa_nsd_acquired = 100, soa_disk = soa10, soa_disk_acquired = 100,
     soa_notified = soa10, soa_notified_acquired = 0, master_has_key = False,
     zone_tsig = idle_tsig, query_id = 7, msg_seq_nr = 0, msg_rr_count = 0,
     msg_old_serial = 0, msg_new_serial = 0, msg_is_ixfr = 0, tcp_conn = - 1,
     round_num = 0, timeout = None\<rparr>"

definition quiet_xfrd :: xfrd_state where
  "quiet_xfrd = \<lparr>current_time = 1000, random_values = (\<lambda>_. 0), random_drawn = 0,
     tsig_verify = (\<lambda>_. True), difflog = [], dirty_zones = [], ipc_write = False,
     need_to_send_reload = False, reload_timeout_sec = 0, reload_handler_armed = False,
     xfrd_reload_timeout = 0\<rparr>"

definition soa_reply :: "xfrd_soa \<Rightarrow> xfr_packet" where
  "soa_reply s = \<lparr>pkt_octets = [], pkt_limit = 0, pkt_header_fits = True, pkt_id = 7,
     pkt_rcode = 0, pkt_tc = False, pkt_qdcount = 1, pkt_ancount = 1, pkt_arcount = 0,
     pkt_questions_ok = True, pkt_answers = [RR_soa s], pkt_tsig = Some (TSIG_NOT_PRESENT, 0)\<rparr>"

definition broken_reply :: xfr_packet where
  "broken_reply = \<lparr>pkt_octets = [], pkt_limit = 0, pkt_header_fits = True, pkt_id = 7,
     pkt_rcode = 0, pkt_tc = False, pkt_qdcount = 1, pkt_ancount = 2, pkt_arcount = 0,
     pkt_questions_ok = True, pkt_answers = [RR_other 1, RR_malformed],
     pkt_tsig = Some (TSIG_NOT_PRESENT, 0)\<rparr>"


subsection \<open>Lemmas about the coordinator\<close>






lemma compare_serial_refl: "compare_serial a a = 0"
  by (simp add: compare_serial_def)

lemma xfrd_set_timer_bounds:
  assumes "xfrd_set_timer x zone t = (x1, zone1)" "xfrd_time x < t"
  shows "\<exists>t1. timeout zone1 = Some t1 \<and> xfrd_time x < t1 \<and> t1 \<le> t"
    and "zone1\<lparr>timeout := timeout zone\<rparr> = zone"
    and "difflog x1 = difflog x" "current_time x1 = current_time x"
proof -
  let ?now = "xfrd_time x"
  let ?extra = "t - ?now"
  let ?base = "?extra * 9 div 10"
  show "zone1\<lparr>timeout := timeout zone\<rparr> = zone"
    "difflog x1 = difflog x" "current_time x1 = current_time x"
    using assms(1)
    by (auto simp: xfrd_set_timer_def random_draw_def Let_def split: if_splits prod.splits)
  show "\<exists>t1. timeout zone1 = Some t1 \<and> ?now < t1 \<and> t1 \<le> t"
  proof (cases "?now + 10 < t")
    case False
    then show ?thesis using assms by (auto simp: xfrd_set_timer_def)
  next
    case True
    then have b: "0 < ?base" "?base < ?extra" by auto
    obtain r where t1: "timeout zone1 = Some (?now + ?base + r mod (?extra - ?base))"
      using assms(1) True
      by (auto simp: xfrd_set_timer_def random_draw_def Let_def split: prod.splits)
    have "r mod (?extra - ?base) < ?extra - ?base" using b by simp
    then have "?now + ?base + r mod (?extra - ?base) \<le> t" using True by linarith
    then show ?thesis using t1 b by simp
  qed
qed

lemma xfrd_set_zone_state_ok:
  assumes "xfrd_set_zone_state x zone s = (x1, zone1)"
  shows "state zone1 = s" "zone1\<lparr>state := state zone, dirty := dirty zone\<rparr> = zone"
    "difflog x1 = difflog x" "current_time x1 = current_time x"
  using assms
  by (auto simp: xfrd_set_zone_state_def xfrd_send_expire_notification_def Let_def
      split: if_splits)

lemma compare_serial_older:
  assumes "compare_serial a b < 0"
  shows "0 < compare_serial b a"
proof -
  from assms have ne: "a \<noteq> b" and lt: "b - a < 2 ^ 31"
    by (auto simp: compare_serial_def split: if_splits)
  have une: "unat a \<noteq> unat b" using ne by (simp add: word_unat_eq_iff)
  have "\<not> a - b < 2 ^ 31"
    using lt une
    by (auto simp: word_less_nat_alt unat_sub_if_size word_size split: if_splits)
  then show ?thesis using ne by (auto simp: compare_serial_def)
qed

lemma process_tsig_keeps:
  assumes "xfrd_xfr_process_tsig x zone p = (ok, zone1, p1)"
  shows "zone1\<lparr>zone_tsig := zone_tsig zone\<rparr> = zone"
    and "pkt_questions_ok p1 = pkt_questions_ok p" "pkt_answers p1 = pkt_answers p"
    and "pkt_ancount p1 = pkt_ancount p" "pkt_tc p1 = pkt_tc p"
  using assms
  by (auto simp: xfrd_xfr_process_tsig_def Let_def split: option.splits if_splits prod.splits)

lemma tsig_step_keeps:
  assumes "(if master_has_key zone then xfrd_xfr_process_tsig x zone p else (True, zone, p))
           = (ok, zone1, p1)"
  shows "zone1\<lparr>zone_tsig := zone_tsig zone\<rparr> = zone"
    and "pkt_questions_ok p1 = pkt_questions_ok p" "pkt_answers p1 = pkt_answers p"
    and "pkt_ancount p1 = pkt_ancount p" "pkt_tc p1 = pkt_tc p"
  using assms process_tsig_keeps[of x zone p ok zone1 p1]
  by (auto split: if_splits)

lemma zone_field_eqs:
  assumes "zone1\<lparr>zone_tsig := t\<rparr> = (zone :: xfrd_zone)"
  shows "state zone1 = state zone" "soa_disk zone1 = soa_disk zone"
    "soa_disk_acquired zone1 = soa_disk_acquired zone"
    "soa_notified zone1 = soa_notified zone"
    "soa_notified_acquired zone1 = soa_notified_acquired zone"
    "soa_nsd zone1 = soa_nsd zone"
    "msg_rr_count zone1 = msg_rr_count zone" "msg_seq_nr zone1 = msg_seq_nr zone"
    "tcp_conn zone1 = tcp_conn zone" "timeout zone1 = timeout zone"
    "round_num zone1 = round_num zone" "apex_str zone1 = apex_str zone"
    "query_id zone1 = query_id zone" "dirty zone1 = dirty zone"
    "master_has_key zone1 = master_has_key zone"
  using arg_cong[OF assms, of state] arg_cong[OF assms, of soa_disk]
    arg_cong[OF assms, of soa_disk_acquired] arg_cong[OF assms, of soa_notified]
    arg_cong[OF assms, of soa_notified_acquired] arg_cong[OF assms, of soa_nsd]
    arg_cong[OF assms, of msg_rr_count] arg_cong[OF assms, of msg_seq_nr]
    arg_cong[OF assms, of tcp_conn] arg_cong[OF assms, of timeout]
    arg_cong[OF assms, of round_num] arg_cong[OF assms, of apex_str]
    arg_cong[OF assms, of query_id] arg_cong[OF assms, of dirty]
    arg_cong[OF assms, of master_has_key]
  by simp_all

lemma newlease_first_rr:
  assumes a: "pkt_answers p = RR_soa soa # rest"
    and d: "soa_disk_acquired zone \<noteq> 0" and e: "serial soa = serial (soa_disk zone)"
    and n: "soa_notified_acquired zone = 0" and t: "0 < current_time x"
    and r: "parse_first_rr x zone p soa0 = res"
  shows "\<exists>x1 zone1. res = Inl (xfrd_packet_newlease, x1, zone1, p, soa) \<and>
           state zone1 = xfrd_zone_ok \<and> soa_disk_acquired zone1 = current_time x \<and>
           round_num zone1 = - 1 \<and> soa_notified_acquired zone1 = 0 \<and>
           soa_disk zone1 = soa_disk zone \<and>
           (\<exists>t1. timeout zone1 = Some t1 \<and> current_time x < t1 \<and>
              t1 \<le> current_time x +
                   max 1 (min (unat (refresh (soa_disk zone))) (unat (expire (soa_disk zone)))))"
proof -
  let ?now = "xfrd_time x"
  have nowc: "?now = current_time x" by (simp add: xfrd_time_def)
  let ?z1 = "zone\<lparr>soa_disk_acquired := ?now\<rparr>"
  let ?z2 = "if serial (soa_nsd ?z1) = serial soa then ?z1\<lparr>soa_nsd_acquired := ?now\<rparr> else ?z1"
  obtain x1 z3 where s: "xfrd_set_zone_state x ?z2 xfrd_zone_ok = (x1, z3)"
    by (cases "xfrd_set_zone_state x ?z2 xfrd_zone_ok") auto
  let ?z4 = "z3\<lparr>round_num := - 1\<rparr>"
  obtain x2 z5 where tm: "xfrd_set_timer_refresh x1 ?z4 = (x2, z5)"
    by (cases "xfrd_set_timer_refresh x1 ?z4") auto
  have res: "res = Inl (xfrd_packet_newlease, x2, z5, p, soa)"
    unfolding r[symmetric] parse_first_rr_def a list.case wire_rr.case Let_def
    using d e n s tm
    by (simp add: compare_serial_refl)
  note st = xfrd_set_zone_state_ok[OF s]
  have z3: "state z3 = xfrd_zone_ok" "soa_disk_acquired z3 = ?now" "soa_disk z3 = soa_disk zone"
    "soa_notified_acquired z3 = 0"
    using st(1) arg_cong[OF st(2), of soa_disk_acquired] arg_cong[OF st(2), of soa_disk]
      arg_cong[OF st(2), of soa_notified_acquired] n
    by (simp_all split: if_splits)
  let ?set0 = "if ?now + unat (refresh (soa_disk zone)) < ?now + unat (expire (soa_disk zone))
               then ?now + unat (refresh (soa_disk zone)) else ?now + unat (expire (soa_disk zone))"
  let ?set1 = "if ?set0 < ?now + XFRD_LOWERBOUND_REFRESH then ?now + XFRD_LOWERBOUND_REFRESH else ?set0"
  have pos: "?now \<noteq> 0" using t nowc by simp
  have tm1: "xfrd_set_timer x1 ?z4 ?set1 = (x2, z5)"
    using tm z3 pos by (simp add: xfrd_set_timer_refresh_def Let_def)
  have now1: "xfrd_time x1 = ?now" using st(4) by (simp add: xfrd_time_def)
  have lt: "xfrd_time x1 < ?set1" by (simp add: now1 XFRD_LOWERBOUND_REFRESH_def)
  note b = xfrd_set_timer_bounds[OF tm1 lt]
  have keep: "state z5 = xfrd_zone_ok" "soa_disk_acquired z5 = ?now" "round_num z5 = - 1"
    "soa_notified_acquired z5 = 0" "soa_disk z5 = soa_disk zone"
    using arg_cong[OF b(2), of state] arg_cong[OF b(2), of soa_disk_acquired]
      arg_cong[OF b(2), of round_num] arg_cong[OF b(2), of soa_notified_acquired]
      arg_cong[OF b(2), of soa_disk] z3
    by simp_all
  have bound: "?set1 \<le> ?now + max 1 (min (unat (refresh (soa_disk zone))) (unat (expire (soa_disk zone))))"
    by (simp add: XFRD_LOWERBOUND_REFRESH_def)
  from b(1) obtain t1 where "timeout z5 = Some t1" "?now < t1" "t1 \<le> ?set1"
    using now1 by auto
  then show ?thesis using res keep bound unfolding nowc
    by (intro exI conjI) (assumption | simp)+
qed

lemma stale_first_rr:
  assumes a: "pkt_answers p = RR_soa soa # rest" and d: "soa_disk_acquired zone \<noteq> 0"
    and h: "serial soa = serial (soa_disk zone) \<and> soa_notified_acquired zone \<noteq> 0 \<or>
            0 < compare_serial (serial (soa_disk zone)) (serial soa) \<and>
            state zone \<noteq> xfrd_zone_expired"
  shows "parse_first_rr x zone p soa0 = Inl (xfrd_packet_bad, x, zone, p, soa)"
proof (cases "0 < compare_serial (serial (soa_disk zone)) (serial soa) \<and>
            state zone \<noteq> xfrd_zone_expired")
  case True
  then show ?thesis
    unfolding parse_first_rr_def a list.case wire_rr.case using d by simp
next
  case False
  with h have e: "serial soa = serial (soa_disk zone)" "soa_notified_acquired zone \<noteq> 0"
    by auto
  show ?thesis
    unfolding parse_first_rr_def a list.case wire_rr.case using d e
    by (simp add: compare_serial_refl)
qed

text \<open>
  C4 (as amended). A reply with matching ID and RCODE NOERROR (and a TSIG that passes,
  when the master has a key), first of its transfer, whose only answer RR is a SOA, for
  a zone with a valid on-disk SOA, at a time after the epoch:
  when the serial equals the on-disk serial and no notification is pending, the zone
  gets a new lease: the result is \<open>xfrd_packet_newlease\<close>, the state is ok,
  \<open>soa_disk_acquired\<close> is the current time, the round counter is reset and the
  refresh timer is set, later than now and no later than now plus the smaller of
  refresh and expire (at least one second);
  when the serial equals the on-disk serial and a notification is pending, or the
  serial is older than the on-disk serial and the zone is not expired, the reply is
  \<open>xfrd_packet_bad\<close> and state, pending notification, lease and timer stay as they
  were.
\<close>

theorem xfrd_parse_current_serial:
  assumes hdr: "pkt_header_fits p" "pkt_id p = query_id zone" "pkt_rcode p = 0"
    and key: "master_has_key zone \<longrightarrow> fst (xfrd_xfr_process_tsig x zone p)"
    and q: "pkt_questions_ok p"
    and an: "pkt_ancount p = 1" "pkt_answers p = [RR_soa soa]"
    and fresh: "msg_rr_count zone = 0" and disk: "soa_disk_acquired zone \<noteq> 0"
    and now: "0 < current_time x"
    and r: "xfrd_parse_received_xfr_packet x zone p soa0 = (res, x1, zone1, p1, soa1)"
  shows "(serial soa = serial (soa_disk zone) \<and> soa_notified_acquired zone = 0 \<longrightarrow>
            res = xfrd_packet_newlease \<and> state zone1 = xfrd_zone_ok \<and>
            soa_disk_acquired zone1 = current_time x \<and> round_num zone1 = - 1 \<and>
            soa_notified_acquired zone1 = 0 \<and> soa_disk zone1 = soa_disk zone \<and>
            (\<exists>t1. timeout zone1 = Some t1 \<and> current_time x < t1 \<and>
               t1 \<le> current_time x +
                 max 1 (min (unat (refresh (soa_disk zone))) (unat (expire (soa_disk zone)))))) \<and>
         (serial soa = serial (soa_disk zone) \<and> soa_notified_acquired zone \<noteq> 0 \<or>
          compare_serial (serial soa) (serial (soa_disk zone)) < 0 \<and>
          state zone \<noteq> xfrd_zone_expired \<longrightarrow>
            res = xfrd_packet_bad \<and> state zone1 = state zone \<and>
            soa_notified_acquired zone1 = soa_notified_acquired zone \<and>
            soa_disk_acquired zone1 = soa_disk_acquired zone \<and>
            soa_disk zone1 = soa_disk zone \<and> timeout zone1 = timeout zone)"
proof -
  obtain ok z0 p0 where
    ts: "(if master_has_key zone then xfrd_xfr_process_tsig x zone p else (True, zone, p))
         = (ok, z0, p0)"
    by (cases "if master_has_key zone then xfrd_xfr_process_tsig x zone p else (True, zone, p)")
      auto
  have ok: ok using ts key by (auto split: if_splits)
  note k = tsig_step_keeps[OF ts]
  note f = zone_field_eqs[OF k(1)]
  have unf: "xfrd_parse_received_xfr_packet x zone p soa0 =
      (case parse_first_rr x z0 p0 soa0 of
         Inl r \<Rightarrow> r
       | Inr (x1, zone2, soa1, rest, ancount_todo) \<Rightarrow>
           parse_rest x1 zone2 p0 soa1 rest ancount_todo)"
    unfolding xfrd_parse_received_xfr_packet_def ts prod.case
    using hdr ok q an(1) fresh k(2) f(7) by simp
  have a0: "pkt_answers p0 = RR_soa soa # []" using an(2) k(3) by simp
  have first: ?thesis if "parse_first_rr x z0 p0 soa0 = Inl (res, x1, zone1, p1, soa1)" "True"
  proof -
    show ?thesis
    proof (intro conjI impI)
      assume h: "serial soa = serial (soa_disk zone) \<and> soa_notified_acquired zone = 0"
      from newlease_first_rr[OF a0 _ _ _ now refl, of z0 soa0] h disk f
      obtain x1' zone1' where
        "parse_first_rr x z0 p0 soa0 = Inl (xfrd_packet_newlease, x1', zone1', p0, soa)"
        and c: "state zone1' = xfrd_zone_ok" "soa_disk_acquired zone1' = current_time x"
          "round_num zone1' = - 1" "soa_notified_acquired zone1' = 0"
          "soa_disk zone1' = soa_disk z0"
          "\<exists>t1. timeout zone1' = Some t1 \<and> current_time x < t1 \<and>
              t1 \<le> current_time x +
                   max 1 (min (unat (refresh (soa_disk z0))) (unat (expire (soa_disk z0))))"
        by auto
      with that(1) have e: "res = xfrd_packet_newlease" "zone1 = zone1'" by auto
      show "res = xfrd_packet_newlease" "state zone1 = xfrd_zone_ok"
        "soa_disk_acquired zone1 = current_time x" "round_num zone1 = - 1"
        "soa_notified_acquired zone1 = 0" "soa_disk zone1 = soa_disk zone"
        "\<exists>t1. timeout zone1 = Some t1 \<and> current_time x < t1 \<and>
               t1 \<le> current_time x +
                 max 1 (min (unat (refresh (soa_disk zone))) (unat (expire (soa_disk zone))))"
        using e c f by simp_all
    next
      assume h: "serial soa = serial (soa_disk zone) \<and> soa_notified_acquired zone \<noteq> 0 \<or>
          compare_serial (serial soa) (serial (soa_disk zone)) < 0 \<and>
          state zone \<noteq> xfrd_zone_expired"
      have h0: "serial soa = serial (soa_disk z0) \<and> soa_notified_acquired z0 \<noteq> 0 \<or>
            0 < compare_serial (serial (soa_disk z0)) (serial soa) \<and>
            state z0 \<noteq> xfrd_zone_expired"
        using h compare_serial_older[of "serial soa" "serial (soa_disk zone)"]
        unfolding f by auto
      have d0: "soa_disk_acquired z0 \<noteq> 0" using disk unfolding f .
      have "parse_first_rr x z0 p0 soa0 = Inl (xfrd_packet_bad, x, z0, p0, soa)"
        using stale_first_rr[OF a0 d0 h0] .
      with that(1) have e: "res = xfrd_packet_bad" "zone1 = z0" by auto
      show "res = xfrd_packet_bad" "state zone1 = state zone"
        "soa_notified_acquired zone1 = soa_notified_acquired zone"
        "soa_disk_acquired zone1 = soa_disk_acquired zone"
        "soa_disk zone1 = soa_disk zone" "timeout zone1 = timeout zone"
        using e f by simp_all
    qed
  qed
  show ?thesis
  proof (cases "serial soa = serial (soa_disk zone) \<or>
                (compare_serial (serial soa) (serial (soa_disk zone)) < 0 \<and>
                 state zone \<noteq> xfrd_zone_expired)")
    case False
    then show ?thesis by auto
  next
    case True
    have d0: "soa_disk_acquired z0 \<noteq> 0" using disk unfolding f .
    have "\<exists>v. parse_first_rr x z0 p0 soa0 = Inl v"
    proof (cases "soa_notified_acquired zone = 0 \<and> serial soa = serial (soa_disk zone)")
      case True
      then show ?thesis
        using newlease_first_rr[OF a0 d0 _ _ now refl, of soa0] f by auto
    next
      case False
      with True have "serial soa = serial (soa_disk z0) \<and> soa_notified_acquired z0 \<noteq> 0 \<or>
            0 < compare_serial (serial (soa_disk z0)) (serial soa) \<and>
            state z0 \<noteq> xfrd_zone_expired"
        using compare_serial_older[of "serial soa" "serial (soa_disk zone)"]
        unfolding f by auto
      then show ?thesis using stale_first_rr[OF a0 d0] by blast
    qed
    then obtain v where v: "parse_first_rr x z0 p0 soa0 = Inl v" by blast
    with r unf have "v = (res, x1, zone1, p1, soa1)" by simp
    with v first show ?thesis by simp
  qed
qed

lemma same_lease_refl: "same_lease zone zone"
  by (simp add: same_lease_def)

lemma same_lease_trans: "same_lease a b \<Longrightarrow> same_lease b c \<Longrightarrow> same_lease a c"
  by (simp add: same_lease_def)

lemma check_rrs_keeps:
  "xfrd_xfr_check_rrs zone rrs n done soa = (ok, zone1, d1, s1) \<Longrightarrow>
   same_lease zone1 zone \<and> state zone1 = state zone \<and> zone_tsig zone1 = zone_tsig zone"
proof (induction zone rrs n "done" soa rule: xfrd_xfr_check_rrs.induct)
  case (5 zone s rrs n "done" soa)
  then show ?case
    by (auto simp: same_lease_def Let_def split: if_splits)
qed (auto simp: same_lease_def)

lemma check_rrs_none:
  "xfrd_xfr_check_rrs zone rrs 0 done soa = (True, zone, done, soa)"
  by simp

lemma parse_rest_keeps:
  assumes "parse_rest x zone p soa rrs n = (res, x1, zone1, p1, s1)"
  shows "x1 = x" "same_lease zone1 zone" "state zone1 = state zone"
    and "n = 0 \<Longrightarrow> pkt_ancount p < 2 \<Longrightarrow> res \<noteq> xfrd_packet_bad"
proof -
  obtain ok z d s where c: "xfrd_xfr_check_rrs zone rrs n False soa = (ok, z, d, s)"
    by (cases "xfrd_xfr_check_rrs zone rrs n False soa") auto
  note k = check_rrs_keeps[OF c]
  show "x1 = x" "same_lease zone1 zone" "state zone1 = state zone"
    using assms c k
    by (auto simp: parse_rest_def same_lease_refl split: if_splits)
  show "res \<noteq> xfrd_packet_bad" if "n = 0" "pkt_ancount p < 2"
    using assms that
    by (auto simp: parse_rest_def split: if_splits)
qed

lemma handle_incoming_notify_keeps:
  assumes "xfrd_handle_incoming_notify x zone soa = (r, x1, zone1)"
  shows "difflog x1 = difflog x" "current_time x1 = current_time x" "same_lease zone1 zone"
    "tsig_verify x1 = tsig_verify x"
  using assms
  by (auto simp: xfrd_handle_incoming_notify_def xfrd_set_zone_state_def
      xfrd_send_expire_notification_def same_lease_def Let_def
      split: if_splits option.splits prod.splits)

lemma parse_first_rr_bad:
  assumes "parse_first_rr x zone p soa0 = Inl (xfrd_packet_bad, x1, zone1, p1, s1)"
  shows "x1 = x" "zone1 = zone"
  using assms
  by (auto simp: parse_first_rr_def Let_def
      split: list.splits wire_rr.splits if_splits prod.splits)

lemma parse_first_rr_goes_on:
  assumes "parse_first_rr x zone p soa0 = Inr (x1, zone1, s1, rest, n)"
  shows "n = pkt_ancount p - 1" "difflog x1 = difflog x" "current_time x1 = current_time x"
    "same_lease zone1 zone" "pkt_ancount p \<noteq> 1 \<Longrightarrow> state zone1 = state zone"
proof -
  from assms obtain soa rest0 where a: "pkt_answers p = RR_soa soa # rest0"
    by (cases "pkt_answers p"; cases "hd (pkt_answers p)")
       (auto simp: parse_first_rr_def)
  obtain r xn zn where h: "xfrd_handle_incoming_notify x zone (Some soa) = (r, xn, zn)"
    by (cases "xfrd_handle_incoming_notify x zone (Some soa)") auto
  note k = handle_incoming_notify_keeps[OF h]
  note u = assms[unfolded parse_first_rr_def a list.case wire_rr.case]
  show "n = pkt_ancount p - 1" "difflog x1 = difflog x" "current_time x1 = current_time x"
    "same_lease zone1 zone"
    using u h k
    by (auto simp: same_lease_def Let_def split: if_splits prod.splits)
  show "state zone1 = state zone" if "pkt_ancount p \<noteq> 1"
    using u that
    by (auto simp: Let_def split: if_splits prod.splits)
qed

lemma parse_bad_keeps:
  assumes r: "xfrd_parse_received_xfr_packet x zone p soa0 = (xfrd_packet_bad, x1, zone1, p1, s1)"
  shows "difflog x1 = difflog x" "current_time x1 = current_time x"
    "same_lease zone1 zone" "state zone1 = state zone"
proof -
  obtain ok z0 p0 where
    ts: "(if master_has_key zone then xfrd_xfr_process_tsig x zone p else (True, zone, p))
         = (ok, z0, p0)"
    by (cases "if master_has_key zone then xfrd_xfr_process_tsig x zone p else (True, zone, p)")
      auto
  note k = tsig_step_keeps[OF ts]
  note f = zone_field_eqs[OF k(1)]
  have l0: "same_lease z0 zone" "state z0 = state zone"
    using f by (simp_all add: same_lease_def)
  have goal: "difflog x1 = difflog x \<and> current_time x1 = current_time x \<and>
     same_lease zone1 zone \<and> state zone1 = state zone"
  proof (cases "\<not> pkt_header_fits p \<or> pkt_id p \<noteq> query_id zone \<or> pkt_rcode p \<noteq> 0")
    case True
    with r show ?thesis
      by (auto simp: xfrd_parse_received_xfr_packet_def same_lease_refl split: if_splits)
  next
    case hd: False
    show ?thesis
    proof (cases "\<not> ok \<or> \<not> pkt_questions_ok p0 \<or> pkt_ancount p = 0")
      case True
      with r hd ts l0 show ?thesis
        by (auto simp: xfrd_parse_received_xfr_packet_def split: if_splits)
    next
      case go: False
      show ?thesis
      proof (cases "msg_rr_count z0 = 0")
        case False
        with r hd go ts have
          "parse_rest x z0 p0 soa0 (pkt_answers p0) (pkt_ancount p) = (xfrd_packet_bad, x1, zone1, p1, s1)"
          by (auto simp: xfrd_parse_received_xfr_packet_def split: if_splits)
        from parse_rest_keeps(1,2,3)[OF this] l0 show ?thesis
          using same_lease_trans by auto
      next
        case True
        with r hd go ts have c:
          "(case parse_first_rr x z0 p0 soa0 of
              Inl r \<Rightarrow> r
            | Inr (x1, zone2, soa1, rest, ancount_todo) \<Rightarrow>
                parse_rest x1 zone2 p0 soa1 rest ancount_todo) = (xfrd_packet_bad, x1, zone1, p1, s1)"
          by (auto simp: xfrd_parse_received_xfr_packet_def split: if_splits)
        show ?thesis
        proof (cases "parse_first_rr x z0 p0 soa0")
          case (Inl v)
          with c have "parse_first_rr x z0 p0 soa0 = Inl (xfrd_packet_bad, x1, zone1, p1, s1)"
            by simp
          from parse_first_rr_bad[OF this] l0 show ?thesis by simp
        next
          case (Inr w)
          then obtain x2 z2 s2 rest n where
            w: "parse_first_rr x z0 p0 soa0 = Inr (x2, z2, s2, rest, n)"
            by (cases w) auto
          with c have pr: "parse_rest x2 z2 p0 s2 rest n = (xfrd_packet_bad, x1, zone1, p1, s1)"
            by simp
          note g = parse_first_rr_goes_on[OF w]
          note q = parse_rest_keeps[OF pr]
          have "pkt_ancount p0 \<noteq> 1"
          proof
            assume "pkt_ancount p0 = 1"
            then have "n = 0" "pkt_ancount p0 < 2" using g(1) by simp_all
            from q(4)[OF this] show False by simp
          qed
          then have "state z2 = state z0" using g(5) by simp
          then show ?thesis
            using q(1,2,3) g(2,3,4) l0 same_lease_trans by auto
        qed
      qed
    qed
  qed
  then show "difflog x1 = difflog x" "current_time x1 = current_time x"
    "same_lease zone1 zone" "state zone1 = state zone"
    by simp_all
qed

text \<open>
  C9. When the reply is bad and at least one part of the transfer is in the difflog
  (\<open>msg_seq_nr > 0\<close>), the handler returns \<open>xfrd_packet_bad\<close>, the difflog gets one
  more entry, a commit record with committed flag 0 that names the old and the new
  serial of the transfer and the number of parts, and the on-disk SOA, the time it was
  acquired and the zone state are as before the reply.
\<close>

theorem xfrd_rollback_on_bad:
  assumes "0 < msg_seq_nr zone"
    and "xfrd_parse_received_xfr_packet x zone p soa0 = (xfrd_packet_bad, x1, zone1, p1, soa1)"
  shows "xfrd_handle_received_xfr_packet x zone p soa0 =
           (xfrd_packet_bad,
            x1\<lparr>difflog := difflog x @
                  [Diff_commit (apex_str zone) (msg_old_serial zone1) (msg_new_serial zone1)
                     (query_id zone) (msg_seq_nr zone) 0
                     (Rollback_note (msg_new_serial zone1) (current_time x) (msg_seq_nr zone))]\<rparr>,
            zone1) \<and>
         soa_disk zone1 = soa_disk zone \<and>
         soa_disk_acquired zone1 = soa_disk_acquired zone \<and>
         state zone1 = state zone"
proof -
  note k = parse_bad_keeps[OF assms(2)]
  show ?thesis
    using assms k
    by (simp add: xfrd_handle_received_xfr_packet_def diff_write_commit_def same_lease_def
        xfrd_time_def)
qed

theorem xfrd_parse_current_serial_witness:
  "fst (xfrd_parse_received_xfr_packet quiet_xfrd probing_zone (soa_reply soa10) soa10)
     = xfrd_packet_newlease \<and>
   state (fst (snd (snd
     (xfrd_parse_received_xfr_packet quiet_xfrd probing_zone (soa_reply soa10) soa10))))
     = xfrd_zone_ok \<and>
   fst (xfrd_parse_received_xfr_packet quiet_xfrd
          (probing_zone\<lparr>soa_notified_acquired := 900\<rparr>) (soa_reply soa10) soa10)
     = xfrd_packet_bad"
proof -
  obtain res x1 z1 p1 s1 where
    r: "xfrd_parse_received_xfr_packet quiet_xfrd probing_zone (soa_reply soa10) soa10
        = (res, x1, z1, p1, s1)"
    by (cases "xfrd_parse_received_xfr_packet quiet_xfrd probing_zone (soa_reply soa10) soa10")
  obtain res' x1' z1' p1' s1' where
    r': "xfrd_parse_received_xfr_packet quiet_xfrd
          (probing_zone\<lparr>soa_notified_acquired := 900\<rparr>) (soa_reply soa10) soa10
        = (res', x1', z1', p1', s1')"
    by (cases "xfrd_parse_received_xfr_packet quiet_xfrd
          (probing_zone\<lparr>soa_notified_acquired := 900\<rparr>) (soa_reply soa10) soa10")
  have a: "res = xfrd_packet_newlease \<and> state z1 = xfrd_zone_ok"
    using xfrd_parse_current_serial[OF _ _ _ _ _ _ _ _ _ _ r, of soa10]
    by (simp add: probing_zone_def soa_reply_def quiet_xfrd_def)
  have b: "res' = xfrd_packet_bad"
    using xfrd_parse_current_serial[OF _ _ _ _ _ _ _ _ _ _ r', of soa10]
    by (simp add: probing_zone_def soa_reply_def quiet_xfrd_def)
  show ?thesis using a b r r' by simp
qed

text \<open>
  The claim as it is written fails when a notification is pending: the reply has the
  on-disk serial, which satisfies the notified serial, yet the reply is bad, the
  notification stays pending and the state stays refreshing.
\<close>

theorem xfrd_pending_notify_counterexample:
  "pkt_id (soa_reply soa10) = query_id (probing_zone\<lparr>soa_notified_acquired := 900\<rparr>) \<and>
   pkt_rcode (soa_reply soa10) = 0 \<and> pkt_ancount (soa_reply soa10) = 1 \<and>
   compare_serial (serial soa10)
     (serial (soa_disk (probing_zone\<lparr>soa_notified_acquired := 900\<rparr>))) \<le> 0 \<and>
   0 \<le> compare_serial (serial soa10)
     (serial (soa_notified (probing_zone\<lparr>soa_notified_acquired := 900\<rparr>))) \<and>
   xfrd_parse_received_xfr_packet quiet_xfrd
     (probing_zone\<lparr>soa_notified_acquired := 900\<rparr>) (soa_reply soa10) soa10 =
     (xfrd_packet_bad, quiet_xfrd, probing_zone\<lparr>soa_notified_acquired := 900\<rparr>,
      soa_reply soa10, soa10) \<and>
   soa_notified_acquired (probing_zone\<lparr>soa_notified_acquired := 900\<rparr>) \<noteq> 0 \<and>
   state (probing_zone\<lparr>soa_notified_acquired := 900\<rparr>) \<noteq> xfrd_zone_ok"
  by (simp add: xfrd_parse_received_xfr_packet_def parse_first_rr_def probing_zone_def
      soa_reply_def compare_serial_def)

theorem xfrd_rollback_on_bad_witness:
  "0 < msg_seq_nr (probing_zone\<lparr>msg_seq_nr := 1, msg_rr_count := 5, tcp_conn := 3\<rparr>) \<and>
   xfrd_handle_received_xfr_packet quiet_xfrd
     (probing_zone\<lparr>msg_seq_nr := 1, msg_rr_count := 5, tcp_conn := 3\<rparr>) broken_reply soa10 =
     (xfrd_packet_bad,
      quiet_xfrd\<lparr>difflog := [Diff_commit ''example.'' 0 0 7 1 0 (Rollback_note 0 1000 1)]\<rparr>,
      probing_zone\<lparr>msg_seq_nr := 1, msg_rr_count := 6, tcp_conn := 3\<rparr>)"
proof -
  let ?z = "probing_zone\<lparr>msg_seq_nr := 1, msg_rr_count := 5, tcp_conn := 3\<rparr>"
  have p: "xfrd_parse_received_xfr_packet quiet_xfrd ?z broken_reply soa10 =
      (xfrd_packet_bad, quiet_xfrd, probing_zone\<lparr>msg_seq_nr := 1, msg_rr_count := 6, tcp_conn := 3\<rparr>,
       broken_reply, soa10)"
    by (simp add: xfrd_parse_received_xfr_packet_def parse_rest_def probing_zone_def
        broken_reply_def numeral_2_eq_2)
  have s: "0 < msg_seq_nr ?z" by simp
  show ?thesis
    using xfrd_rollback_on_bad[OF s p] s
    by (simp add: probing_zone_def quiet_xfrd_def)
qed




section \<open>The control channel (remote.c)\<close>

subsection \<open>C strings\<close>











subsection \<open>State\<close>




subsection \<open>Writing to the client\<close>






subsection \<open>The commands\<close>














subsection \<open>The replies\<close>




lemma error_prefix:
  "prefix ''error '' (take 1023 (''error '' @ t))"
  by simp











section \<open>The name database (namedb.c)\<close>

subsection \<open>Names\<close>

text \<open>
  Modelled from the spec: dname.c is not in the sources. A name is its labels from the
  left, the root label left out (the root name is the empty list); labels are in lower
  case. The label count includes the root label. Names are compared label by label
  from the root, labels octet by octet, a shorter one first: the lexicographic order on
  the reversed list of labels.
\<close>

type_synonym label = string
type_synonym dname = "label list"

definition label_count :: "dname \<Rightarrow> nat" where
  "label_count n = length n + 1"

definition dname_partial_copy :: "dname \<Rightarrow> nat \<Rightarrow> dname" where
  "dname_partial_copy n label_cnt = drop (label_count n - label_cnt) n"

definition dname_label_match_count :: "dname \<Rightarrow> dname \<Rightarrow> nat" where
  "dname_label_match_count a b = length (longest_common_prefix (rev a) (rev b)) + 1"

definition dname_is_subdomain :: "dname \<Rightarrow> dname \<Rightarrow> bool" where
  "dname_is_subdomain a b = suffix b a"

definition dname_compare :: "dname \<Rightarrow> dname \<Rightarrow> int" where
  "dname_compare a b = (if rev a < rev b then - 1 else if a = b then 0 else 1)"

definition label_compare :: "label \<Rightarrow> label \<Rightarrow> int" where
  "label_compare a b = (if a < b then - 1 else if a = b then 0 else 1)"

text \<open>The label a wire name starts with: for the root name the root label, which is empty.\<close>

definition first_label :: "dname \<Rightarrow> label" where
  "first_label n = (case n of [] \<Rightarrow> [] | l # ls \<Rightarrow> l)"

definition label_is_wildcard :: "label \<Rightarrow> bool" where
  "label_is_wildcard l = (l = ''*'')"

subsection \<open>The ordered tree\<close>

text \<open>
  Modelled from the spec: radtree.c is not in the sources. The spec asks for an ordered
  tree from names to values with predecessor and successor; here it is the list of its
  entries in ascending order. An entry's node is named by its element.
\<close>

type_synonym radtree = "(dname \<times> nat) list"

fun radname_insert :: "radtree \<Rightarrow> dname \<Rightarrow> nat \<Rightarrow> radtree" where
  "radname_insert [] n e = [(n, e)]"
| "radname_insert ((k, x) # t) n e =
     (if k = n then (k, x) # t
      else if rev n < rev k then (n, e) # (k, x) # t
      else (k, x) # radname_insert t n e)"

fun radname_find_less_equal :: "radtree \<Rightarrow> dname \<Rightarrow> (bool \<times> nat) option" where
  "radname_find_less_equal [] n = None"
| "radname_find_less_equal ((k, x) # t) n =
     (if k = n then Some (True, x)
      else if rev k < rev n then
        (case radname_find_less_equal t n of None \<Rightarrow> Some (False, x) | Some r \<Rightarrow> Some r)
      else None)"

definition radname_search :: "radtree \<Rightarrow> dname \<Rightarrow> nat option" where
  "radname_search t n = map_of t n"

definition radix_delete :: "radtree \<Rightarrow> nat \<Rightarrow> radtree" where
  "radix_delete t e = filter (\<lambda>(k, x). x \<noteq> e) t"

fun radix_next :: "radtree \<Rightarrow> nat \<Rightarrow> nat option" where
  "radix_next [] e = None"
| "radix_next [(k, x)] e = None"
| "radix_next ((k, x) # (k1, x1) # t) e =
     (if x = e then Some x1 else radix_next ((k1, x1) # t) e)"

fun radix_prev :: "radtree \<Rightarrow> nat \<Rightarrow> nat option" where
  "radix_prev [] e = None"
| "radix_prev [(k, x)] e = None"
| "radix_prev ((k, x) # (k1, x1) # t) e =
     (if x = e then None else if x1 = e then Some x else radix_prev ((k1, x1) # t) e)"

subsection \<open>Domains, RRsets, zones\<close>

datatype rdata_atom = Atom_domain nat | Atom_data "byte list"

record rr =
  rr_owner :: nat
  rr_type :: nat
  rr_klass :: nat
  rr_ttl :: nat
  rdatas :: "rdata_atom list"

text \<open>The list of RRsets of a domain is the chain of the \<^verbatim>\<open>next\<close> pointers.\<close>

record rrset =
  rrset_zone :: nat
  rrs :: "rr list"

text \<open>
  A domain, at an address of the region; a pointer is the address, \<open>None\<close> the null
  pointer. \<open>dname\<close> is the name the source reaches with \<^verbatim>\<open>domain_dname\<close>.
\<close>

record domain =
  dname :: dname
  parent :: "nat option"
  wildcard_child_closest_match :: "nat option"
  rrsets :: "rrset list"
  number :: nat
  numlist_prev :: "nat option"
  numlist_next :: "nat option"
  usage :: nat
  nsec3_cover :: "nat option"
  nsec3_wcard_child_cover :: "nat option"
  nsec3_ds_parent_cover :: "nat option"
  nsec3_lookup :: "nat option"
  nsec3_is_exact :: bool
  nsec3_ds_parent_is_exact :: bool
  have_nsec3_hash :: bool
  have_nsec3_wc_hash :: bool
  have_nsec3_ds_parent_hash :: bool
  is_existing :: bool
  is_apex :: bool

type_synonym heap = "nat \<Rightarrow> domain option"

text \<open>
  The table: the tree of names, the root, the tail of the numbering list, and the
  region (the domains allocated, and the next free address).
\<close>

record domain_table =
  nametree :: radtree
  root :: nat
  numlist_last :: "nat option"
  region :: heap
  region_next :: nat

text \<open>A write through a pointer; \<open>None\<close> when nothing is allocated there.\<close>

definition modify :: "heap \<Rightarrow> nat \<Rightarrow> (domain \<Rightarrow> domain) \<Rightarrow> heap option" where
  "modify h a f = (case h a of None \<Rightarrow> None | Some d \<Rightarrow> Some (h(a \<mapsto> f d)))"

definition domain_next :: "domain_table \<Rightarrow> nat \<Rightarrow> nat option" where
  "domain_next table d = radix_next (nametree table) d"

definition domain_previous :: "domain_table \<Rightarrow> nat \<Rightarrow> nat option" where
  "domain_previous table d = radix_prev (nametree table) d"

subsection \<open>The numbering list\<close>

text \<open>
  \<open>None\<close> stands for a failed assertion or a read or write through a pointer that is
  null or not allocated.
\<close>

definition allocate_domain_info :: "domain_table \<Rightarrow> dname \<Rightarrow> nat \<Rightarrow> (domain_table \<times> nat) option" where
  "allocate_domain_info table n par =
     do {
       p \<leftarrow> region table par;
       last \<leftarrow> numlist_last table;
       l \<leftarrow> region table last;
       let result = region_next table;
       let d = \<lparr>dname = dname_partial_copy n (label_count (dname p) + 1),
                parent = Some par,
                wildcard_child_closest_match = Some result,
                rrsets = [],
                number = number l + 1,
                numlist_prev = Some last,
                numlist_next = None,
                usage = 0,
                nsec3_cover = None,
                nsec3_wcard_child_cover = None,
                nsec3_ds_parent_cover = None,
                nsec3_lookup = None,
                nsec3_is_exact = False,
                nsec3_ds_parent_is_exact = False,
                have_nsec3_hash = False,
                have_nsec3_wc_hash = False,
                have_nsec3_ds_parent_hash = False,
                is_existing = False,
                is_apex = False\<rparr>;
       let h1 = (region table)(result \<mapsto> d);
       h2 \<leftarrow> modify h1 last (\<lambda>x. x\<lparr>numlist_next := Some result\<rparr>);
       Some (table\<lparr>region := h2, region_next := result + 1, numlist_last := Some result\<rparr>,
             result)
     }"

definition numlist_make_last :: "domain_table \<Rightarrow> nat \<Rightarrow> domain_table option" where
  "numlist_make_last table dmn =
     do {
       last \<leftarrow> numlist_last table;
       if dmn = last then Some table
       else do {
         d \<leftarrow> region table dmn;
         l \<leftarrow> region table last;
         h1 \<leftarrow> modify (region table) dmn (\<lambda>x. x\<lparr>number := number l\<rparr>);
         h2 \<leftarrow> modify h1 last (\<lambda>x. x\<lparr>number := number d\<rparr>);
         span_start \<leftarrow> numlist_next d;
         span_end \<leftarrow> numlist_prev l;
         h3 \<leftarrow> (case numlist_prev d of
                  None \<Rightarrow> Some h2
                | Some p \<Rightarrow> modify h2 p (\<lambda>x. x\<lparr>numlist_next := Some last\<rparr>));
         h4 \<leftarrow> modify h3 last (\<lambda>x. x\<lparr>numlist_prev := numlist_prev d\<rparr>);
         h \<leftarrow> (if span_start \<noteq> last then do {
                  h5 \<leftarrow> modify h4 last (\<lambda>x. x\<lparr>numlist_next := Some span_start\<rparr>);
                  h6 \<leftarrow> modify h5 span_start (\<lambda>x. x\<lparr>numlist_prev := Some last\<rparr>);
                  h7 \<leftarrow> modify h6 span_end (\<lambda>x. x\<lparr>numlist_next := Some dmn\<rparr>);
                  h8 \<leftarrow> modify h7 dmn (\<lambda>x. x\<lparr>numlist_prev := Some span_end\<rparr>);
                  modify h8 dmn (\<lambda>x. x\<lparr>numlist_next := None\<rparr>)
                } else do {
                  h5 \<leftarrow> modify h4 last (\<lambda>x. x\<lparr>numlist_next := Some dmn\<rparr>);
                  h6 \<leftarrow> modify h5 dmn (\<lambda>x. x\<lparr>numlist_prev := Some last\<rparr>);
                  modify h6 dmn (\<lambda>x. x\<lparr>numlist_next := None\<rparr>)
                });
         Some (table\<lparr>region := h, numlist_last := Some dmn\<rparr>)
       }
     }"

definition numlist_pop_last :: "domain_table \<Rightarrow> (domain_table \<times> nat) option" where
  "numlist_pop_last table =
     do {
       d \<leftarrow> numlist_last table;
       l \<leftarrow> region table d;
       h \<leftarrow> (case numlist_prev l of
               None \<Rightarrow> Some (region table)
             | Some p \<Rightarrow> modify (region table) p (\<lambda>x. x\<lparr>numlist_next := None\<rparr>));
       Some (table\<lparr>region := h, numlist_last := numlist_prev l\<rparr>, d)
     }"


subsection \<open>Deleting\<close>

definition domain_can_be_deleted :: "domain_table \<Rightarrow> nat \<Rightarrow> bool option" where
  "domain_can_be_deleted table dmn =
     do {
       d \<leftarrow> region table dmn;
       if rrsets d \<noteq> [] then Some False
       else if usage d \<noteq> 0 then Some False
       else
         case domain_next table dmn of
           None \<Rightarrow> Some True
         | Some n \<Rightarrow> do {
             nd \<leftarrow> region table n;
             Some (\<not> dname_is_subdomain (dname nd) (dname d))
           }
     }"

definition do_deldomain :: "domain_table \<Rightarrow> nat \<Rightarrow> domain_table option" where
  "do_deldomain table dmn =
     do {
       d \<leftarrow> region table dmn;
       par \<leftarrow> parent d;
       t1 \<leftarrow> numlist_make_last table dmn;
       (t2, popped) \<leftarrow> numlist_pop_last t1;
       p \<leftarrow> region t2 par;
       h \<leftarrow> (if wildcard_child_closest_match p = Some dmn
              then modify (region t2) par
                     (\<lambda>x. x\<lparr>wildcard_child_closest_match := domain_previous t2 dmn\<rparr>)
              else Some (region t2));
       Some (t2\<lparr>nametree := radix_delete (nametree t2) dmn, region := h(dmn := None)\<rparr>)
     }"

text \<open>
  The loop of \<^verbatim>\<open>domain_table_deldomain\<close>; the parent is read before the domain is
  given back to the region.
\<close>

partial_function (option) domain_table_deldomain :: "domain_table \<Rightarrow> nat \<Rightarrow> domain_table option" where
  "domain_table_deldomain table dmn =
     do {
       c \<leftarrow> domain_can_be_deleted table dmn;
       if c then do {
         d \<leftarrow> region table dmn;
         t1 \<leftarrow> do_deldomain table dmn;
         par \<leftarrow> parent d;
         domain_table_deldomain t1 par
       } else Some table
     }"

declare domain_table_deldomain.simps [code]

subsection \<open>Creating, searching, inserting\<close>

definition domain_table_create :: domain_table where
  "domain_table_create =
     \<lparr>nametree = [([], 0)],
      root = 0,
      numlist_last = Some 0,
      region = Map.empty(0 \<mapsto>
        \<lparr>dname = [],
         parent = None,
         wildcard_child_closest_match = Some 0,
         rrsets = [],
         number = 1,
         numlist_prev = None,
         numlist_next = None,
         usage = 1,
         nsec3_cover = None,
         nsec3_wcard_child_cover = None,
         nsec3_ds_parent_cover = None,
         nsec3_lookup = None,
         nsec3_is_exact = False,
         nsec3_ds_parent_is_exact = False,
         have_nsec3_hash = False,
         have_nsec3_wc_hash = False,
         have_nsec3_ds_parent_hash = False,
         is_existing = False,
         is_apex = False\<rparr>),
      region_next = 1\<rparr>"

text \<open>
  The loop of \<^verbatim>\<open>domain_table_search\<close> that climbs from the closest match to the
  closest encloser.
\<close>

partial_function (option) climb :: "heap \<Rightarrow> nat \<Rightarrow> nat \<Rightarrow> nat option" where
  "climb h label_match_count closest_encloser =
     do {
       d \<leftarrow> h closest_encloser;
       if label_match_count < label_count (dname d)
       then do { p \<leftarrow> parent d; climb h label_match_count p }
       else Some closest_encloser
     }"

declare climb.simps [code]

text \<open>The result is \<open>exact\<close>, the closest match and the closest encloser.\<close>

definition domain_table_search :: "domain_table \<Rightarrow> dname \<Rightarrow> (bool \<times> nat \<times> nat) option" where
  "domain_table_search table n =
     do {
       (exact, closest_match) \<leftarrow> radname_find_less_equal (nametree table) n;
       if exact then Some (True, closest_match, closest_match)
       else do {
         d \<leftarrow> region table closest_match;
         let label_match_count = dname_label_match_count (dname d) n;
         if \<not> label_match_count < label_count n then None
         else do {
           closest_encloser \<leftarrow> climb (region table) label_match_count closest_match;
           Some (False, closest_match, closest_encloser)
         }
       }
     }"

definition domain_table_find :: "domain_table \<Rightarrow> dname \<Rightarrow> nat option option" where
  "domain_table_find table n =
     do {
       (exact, closest_match, closest_encloser) \<leftarrow> domain_table_search table n;
       Some (if exact then Some closest_encloser else None)
     }"

text \<open>
  One round of the do-while loop of \<^verbatim>\<open>domain_table_insert\<close>: a domain one label
  longer than \<open>closest_encloser\<close> is allocated, entered in the tree, and made the
  parent's closest match for the wildcard when it sorts at or below \<open>*\<close> and above the
  present one.
\<close>

definition insert_step :: "domain_table \<Rightarrow> dname \<Rightarrow> nat \<Rightarrow> (domain_table \<times> nat) option" where
  "insert_step table n closest_encloser =
     do {
       (t1, result) \<leftarrow> allocate_domain_info table n closest_encloser;
       r \<leftarrow> region t1 result;
       let t2 = t1\<lparr>nametree := radname_insert (nametree t1) (dname r) result\<rparr>;
       ce \<leftarrow> region t2 closest_encloser;
       w \<leftarrow> wildcard_child_closest_match ce;
       wd \<leftarrow> region t2 w;
       if label_compare (first_label (dname r)) ''*'' \<le> 0 \<and>
          0 < dname_compare (dname r) (dname wd)
       then do {
         h \<leftarrow> modify (region t2) closest_encloser
                (\<lambda>x. x\<lparr>wildcard_child_closest_match := Some result\<rparr>);
         Some (t2\<lparr>region := h\<rparr>, result)
       }
       else Some (t2, result)
     }"

lemma modify_dname:
  "modify h a f = Some h1 \<Longrightarrow> (\<And>x. dname (f x) = dname x) \<Longrightarrow> h b = Some d \<Longrightarrow>
   \<exists>d1. h1 b = Some d1 \<and> dname d1 = dname d"
  by (auto simp: modify_def split: option.splits if_splits)

lemma allocate_domain_info_name:
  assumes "allocate_domain_info table n par = Some (t1, result)"
  shows "\<exists>p r. region table par = Some p \<and> region t1 result = Some r \<and>
           dname r = dname_partial_copy n (label_count (dname p) + 1)"
  using assms
  by (auto simp: allocate_domain_info_def Let_def bind_eq_Some_conv modify_def
      split: option.splits if_splits)

lemma insert_step_name:
  assumes "insert_step table n ce = Some (t1, result)"
  shows "\<exists>c r. region table ce = Some c \<and> region t1 result = Some r \<and>
           dname r = dname_partial_copy n (label_count (dname c) + 1)"
proof -
  from assms obtain ta where a: "allocate_domain_info table n ce = Some (ta, result)"
    and r: "region t1 = region ta \<or>
            (\<exists>h. modify (region ta) ce (\<lambda>x. x\<lparr>wildcard_child_closest_match := Some result\<rparr>) = Some h \<and>
                 region t1 = h)"
    by (auto simp: insert_step_def Let_def bind_eq_Some_conv split: if_splits)
  from allocate_domain_info_name[OF a] obtain c r0 where
    c: "region table ce = Some c" and r0: "region ta result = Some r0"
    "dname r0 = dname_partial_copy n (label_count (dname c) + 1)" by blast
  from r show ?thesis
  proof
    assume "region t1 = region ta"
    then show ?thesis using c r0 by simp
  next
    assume "\<exists>h. modify (region ta) ce (\<lambda>x. x\<lparr>wildcard_child_closest_match := Some result\<rparr>) = Some h \<and>
                 region t1 = h"
    then obtain h where
      m: "modify (region ta) ce (\<lambda>x. x\<lparr>wildcard_child_closest_match := Some result\<rparr>) = Some h"
      and h: "region t1 = h" by blast
    from modify_dname[OF m _ r0(1)] obtain d1 where "h result = Some d1" "dname d1 = dname r0"
      by auto
    then show ?thesis using c r0 h by simp
  qed
qed

lemma partial_copy_grows:
  "label_count (dname_partial_copy n (label_count c + 1)) < label_count n \<Longrightarrow>
   label_count (dname_partial_copy n (label_count c + 1)) = label_count c + 1"
  by (auto simp: dname_partial_copy_def label_count_def)

function insert_loop :: "domain_table \<Rightarrow> dname \<Rightarrow> nat \<Rightarrow> (domain_table \<times> nat) option" where
  "insert_loop table n closest_encloser =
     (case insert_step table n closest_encloser of
        None \<Rightarrow> None
      | Some (t1, result) \<Rightarrow>
          (case region t1 result of
             None \<Rightarrow> None
           | Some r \<Rightarrow>
               if label_count (dname r) < label_count n
               then insert_loop t1 n result
               else Some (t1, result)))"
  by pat_completeness auto
termination
proof (relation "measure (\<lambda>(table, n, ce).
        label_count n - (case region table ce of None \<Rightarrow> 0 | Some c \<Rightarrow> label_count (dname c)))",
    goal_cases)
  case 1
  show ?case by simp
next
  case (2 table n ce x t1 result r)
  from insert_step_name[of table n ce t1 result] 2 obtain c where
    c: "region table ce = Some c" and
    r: "dname r = dname_partial_copy n (label_count (dname c) + 1)"
    by auto
  have "label_count (dname r) = label_count (dname c) + 1"
    using partial_copy_grows[of n "dname c"] 2 r by simp
  then show ?case using 2 c by simp
qed

declare insert_loop.simps [simp del]

definition domain_table_insert :: "domain_table \<Rightarrow> dname \<Rightarrow> (domain_table \<times> nat) option" where
  "domain_table_insert table n =
     do {
       (exact, closest_match, closest_encloser) \<leftarrow> domain_table_search table n;
       if exact then Some (table, closest_encloser)
       else do {
         ce \<leftarrow> region table closest_encloser;
         if \<not> label_count (dname ce) < label_count n then None
         else insert_loop table n closest_encloser
       }
     }"

definition rrset_rrtype :: "rrset \<Rightarrow> nat" where
  "rrset_rrtype r = rr_type (hd (rrs r))"

definition domain_find_rrset :: "domain \<Rightarrow> nat \<Rightarrow> nat \<Rightarrow> rrset option" where
  "domain_find_rrset d zone t =
     find (\<lambda>r. rrset_zone r = zone \<and> rrset_rrtype r = t) (rrsets d)"


text \<open>The loop of \<^verbatim>\<open>domain_add_rrset\<close> that marks the domain and its ancestors as existing.\<close>

partial_function (option) mark_existing :: "heap \<Rightarrow> nat option \<Rightarrow> heap option" where
  "mark_existing h dmn =
     (case dmn of
        None \<Rightarrow> Some h
      | Some d \<Rightarrow>
          do {
            x \<leftarrow> h d;
            if is_existing x then Some h
            else do {
              h1 \<leftarrow> modify h d (\<lambda>x. x\<lparr>is_existing := True\<rparr>);
              mark_existing h1 (parent x)
            }
          })"

declare mark_existing.simps [code]

definition domain_add_rrset :: "domain_table \<Rightarrow> nat \<Rightarrow> rrset \<Rightarrow> domain_table option" where
  "domain_add_rrset table dmn rrset =
     do {
       h \<leftarrow> modify (region table) dmn (\<lambda>x. x\<lparr>rrsets := rrsets x @ [rrset]\<rparr>);
       h1 \<leftarrow> mark_existing h (Some dmn);
       Some (table\<lparr>region := h1\<rparr>)
     }"

subsection \<open>NSEC3 (nsec3.c)\<close>

text \<open>
  Modelled from the spec: the zone structure that nsec3.c works on and the hash
  (iterated_hash.c, b32_ntop, dname_parse) are not in the sources. A zone has its apex,
  the NSEC3 parameter RRset and the last domain with an NSEC3 RRset; a zone pointer is an
  address in \<open>zones\<close>. The hash is a parameter \<open>hashfn salt saltlength name iterations\<close>
  giving the parsed name of the hash. The type code is the one of RFC 5155.
\<close>

record zone =
  apex :: nat
  nsec3_rrset :: "rrset option"
  nsec3_last :: "nat option"

record namedb =
  domains :: domain_table
  zones :: "nat \<Rightarrow> zone option"

type_synonym hash_fn = "byte list \<Rightarrow> int \<Rightarrow> dname \<Rightarrow> int \<Rightarrow> dname"

definition TYPE_NSEC3 :: nat where
  "TYPE_NSEC3 = 50"

text \<open>A read at an index of an array; \<open>None\<close> outside it.\<close>

definition at :: "'a list \<Rightarrow> nat \<Rightarrow> 'a option" where
  "at xs i = (if i < length xs then Some (xs ! i) else None)"

definition rdata_atom_size :: "rdata_atom \<Rightarrow> nat option" where
  "rdata_atom_size a = (case a of Atom_data bs \<Rightarrow> Some (length bs) | Atom_domain d \<Rightarrow> None)"

definition rdata_atom_data :: "rdata_atom \<Rightarrow> byte list option" where
  "rdata_atom_data a = (case a of Atom_data bs \<Rightarrow> Some bs | Atom_domain d \<Rightarrow> None)"

text \<open>The result is the salt, its length and the iteration count.\<close>

definition detect_nsec3_params :: "rrset \<Rightarrow> (byte list \<times> int \<times> int) option" where
  "detect_nsec3_params nsec3_apex =
     do {
       rr0 \<leftarrow> at (rrs nsec3_apex) 0;
       a2 \<leftarrow> at (rdatas rr0) 2;
       d2 \<leftarrow> rdata_atom_data a2;
       salt_len \<leftarrow> at d2 0;
       a1 \<leftarrow> at (rdatas rr0) 1;
       d1 \<leftarrow> rdata_atom_data a1;
       b0 \<leftarrow> at d1 0;
       b1 \<leftarrow> at d1 1;
       b2 \<leftarrow> at d1 2;
       let iter = push_bit 16 (uint b0) OR push_bit 8 (uint b1) OR uint b2;
       Some (tl d2, uint salt_len, iter AND 0x7fffff)
     }"

definition nsec3_hash_dname :: "hash_fn \<Rightarrow> domain_table \<Rightarrow> zone \<Rightarrow> dname \<Rightarrow> dname option" where
  "nsec3_hash_dname hashfn table zone n =
     do {
       r \<leftarrow> nsec3_rrset zone;
       (nsec3_salt, nsec3_saltlength, nsec3_iterations) \<leftarrow> detect_nsec3_params r;
       a \<leftarrow> region table (apex zone);
       Some (hashfn nsec3_salt nsec3_saltlength n nsec3_iterations @ dname a)
     }"

definition nsec3_has_soa :: "rr \<Rightarrow> bool option" where
  "nsec3_has_soa r =
     do {
       a4 \<leftarrow> at (rdatas r) 4;
       sz \<leftarrow> rdata_atom_size a4;
       if 0 < sz then do {
         d \<leftarrow> rdata_atom_data a4;
         w \<leftarrow> at d 0;
         if w = 0 then do {
           b \<leftarrow> at d 2;
           Some (b AND 0x02 \<noteq> 0)
         } else Some False
       } else Some False
     }"

text \<open>
  The loop of \<^verbatim>\<open>find_zone_nsec3\<close>, from a domain on; the parameters are detected for
  the log message only.
\<close>

partial_function (option) find_zone_nsec3_from ::
  "namedb \<Rightarrow> nat \<Rightarrow> nat option \<Rightarrow> rrset option option" where
  "find_zone_nsec3_from db z dmn =
     (case dmn of
        None \<Rightarrow> Some None
      | Some d \<Rightarrow>
          do {
            x \<leftarrow> region (domains db) d;
            zone \<leftarrow> zones db z;
            a \<leftarrow> region (domains db) (apex zone);
            if \<not> dname_is_subdomain (dname x) (dname a) then Some None
            else
              case domain_find_rrset x z TYPE_NSEC3 of
                None \<Rightarrow> find_zone_nsec3_from db z (domain_next (domains db) d)
              | Some rrset \<Rightarrow>
                  do {
                    rr0 \<leftarrow> at (rrs rrset) 0;
                    soa \<leftarrow> nsec3_has_soa rr0;
                    if soa then do {
                      params \<leftarrow> detect_nsec3_params rrset;
                      Some (Some rrset)
                    }
                    else find_zone_nsec3_from db z (domain_next (domains db) d)
                  }
          })"

declare find_zone_nsec3_from.simps [code]

definition find_zone_nsec3 :: "namedb \<Rightarrow> nat \<Rightarrow> rrset option option" where
  "find_zone_nsec3 db z =
     do {
       zone \<leftarrow> zones db z;
       find_zone_nsec3_from db z (Some (apex zone))
     }"

text \<open>The loop of \<^verbatim>\<open>nsec3_find_last\<close>, from a domain on, with the result so far.\<close>

partial_function (option) nsec3_find_last_from ::
  "namedb \<Rightarrow> nat \<Rightarrow> nat option \<Rightarrow> nat option \<Rightarrow> nat option option" where
  "nsec3_find_last_from db z walk result =
     (case walk of
        None \<Rightarrow> Some result
      | Some w \<Rightarrow>
          do {
            x \<leftarrow> region (domains db) w;
            zone \<leftarrow> zones db z;
            a \<leftarrow> region (domains db) (apex zone);
            if \<not> dname_is_subdomain (dname x) (dname a) then Some result
            else nsec3_find_last_from db z (domain_next (domains db) w)
                   (if domain_find_rrset x z TYPE_NSEC3 \<noteq> None then Some w else result)
          })"

declare nsec3_find_last_from.simps [code]

definition nsec3_find_last :: "namedb \<Rightarrow> nat \<Rightarrow> nat option option" where
  "nsec3_find_last db z =
     do {
       zone \<leftarrow> zones db z;
       nsec3_find_last_from db z (Some (apex zone)) None
     }"




text \<open>
  The start of \<^verbatim>\<open>prehash_zone\<close>, which finds the zone settings: the zone as it is
  when the walk through the zone begins.
\<close>

definition prehash_zone_settings :: "hash_fn \<Rightarrow> namedb \<Rightarrow> nat \<Rightarrow> zone option" where
  "prehash_zone_settings hashfn db z =
     do {
       zone \<leftarrow> zones db z;
       r \<leftarrow> find_zone_nsec3 db z;
       l \<leftarrow> nsec3_find_last db z;
       if \<not> ((r \<noteq> None \<and> l \<noteq> None) \<or> (r = None \<and> l = None)) then None
       else do {
         let zone1 = zone\<lparr>nsec3_rrset := r, nsec3_last := l\<rparr>;
         case r of
           None \<Rightarrow> Some zone1
         | Some rs \<Rightarrow>
             do {
               a \<leftarrow> region (domains db) (apex zone1);
               checkname \<leftarrow> nsec3_hash_dname hashfn (domains db) zone1 (dname a);
               rr0 \<leftarrow> at (rrs rs) 0;
               owner \<leftarrow> region (domains db) (rr_owner rr0);
               if dname_compare checkname (dname owner) \<noteq> 0
               then Some (zone1\<lparr>nsec3_rrset := None, nsec3_last := None\<rparr>)
               else Some zone1
             }
       }
     }"


subsection \<open>What the claims about the name database are stated with\<close>

text \<open>
  A well-formed table: the tree is in ascending order of names, every entry is the
  domain of that name, every name but the root has its parent in the tree one label
  shorter, and the root is in the tree.
\<close>

definition tree_ok :: "domain_table \<Rightarrow> bool" where
  "tree_ok table \<longleftrightarrow>
     sorted_wrt (\<lambda>a b. rev (fst a) < rev (fst b)) (nametree table) \<and>
     list_all (\<lambda>(n, d).
        case region table d of
          None \<Rightarrow> False
        | Some x \<Rightarrow> dname x = n \<and>
            (n \<noteq> [] \<longrightarrow>
               (case parent x of None \<Rightarrow> False
                | Some p \<Rightarrow> (tl n, p) \<in> set (nametree table)))) (nametree table) \<and>
     ([], root table) \<in> set (nametree table)"

text \<open>A run of inserts and deletes by name; a name that is not in the table is not deleted.\<close>

datatype table_op = Insert dname | Delete dname

fun run_ops :: "domain_table \<Rightarrow> table_op list \<Rightarrow> domain_table option" where
  "run_ops table [] = Some table"
| "run_ops table (Insert n # ops) =
     (case domain_table_insert table n of
        None \<Rightarrow> None
      | Some (t1, d) \<Rightarrow> run_ops t1 ops)"
| "run_ops table (Delete n # ops) =
     (case domain_table_find table n of
        None \<Rightarrow> None
      | Some None \<Rightarrow> run_ops table ops
      | Some (Some d) \<Rightarrow>
          (case domain_table_deldomain table d of
             None \<Rightarrow> None
           | Some t1 \<Rightarrow> run_ops t1 ops))"

definition two_hosts :: domain_table where
  "two_hosts = the (run_ops domain_table_create
     [Insert [''www'', ''example'', ''com''], Insert [''a'', ''example'', ''com'']])"

text \<open>
  The 24-bit field of the parameter record that holds the iteration count, and the field
  that holds the salt with its length in front.
\<close>

definition iterations_field :: "rrset \<Rightarrow> int option" where
  "iterations_field r =
     do {
       rr0 \<leftarrow> at (rrs r) 0;
       a1 \<leftarrow> at (rdatas rr0) 1;
       d1 \<leftarrow> rdata_atom_data a1;
       b0 \<leftarrow> at d1 0;
       b1 \<leftarrow> at d1 1;
       b2 \<leftarrow> at d1 2;
       Some (uint b0 * 65536 + uint b1 * 256 + uint b2)
     }"

definition salt_field :: "rrset \<Rightarrow> byte list option" where
  "salt_field r =
     do {
       rr0 \<leftarrow> at (rrs r) 0;
       a2 \<leftarrow> at (rdatas rr0) 2;
       rdata_atom_data a2
     }"

text \<open>
  A zone \<open>example\<close> (zone 7, apex at address 1) whose only NSEC3 record is at
  \<open>h.example\<close> (address 2), with the SOA bit in its bitmap and the given octets in the
  iterations field; and a hash that sends every name to \<open>h\<close>.
\<close>

definition nsec3_param_rrset :: "nat \<Rightarrow> byte list \<Rightarrow> rrset" where
  "nsec3_param_rrset owner iter_octets =
     \<lparr>rrset_zone = 7,
      rrs = [\<lparr>rr_owner = owner, rr_type = TYPE_NSEC3, rr_klass = 1, rr_ttl = 3600,
              rdatas = [Atom_data [1], Atom_data iter_octets, Atom_data [0],
                        Atom_data [1, 0x68], Atom_data [0, 1, 0x02]]\<rparr>]\<rparr>"

definition hashed_zone :: "byte list \<Rightarrow> namedb" where
  "hashed_zone iter_octets =
     \<lparr>domains = the (do {
        t \<leftarrow> run_ops domain_table_create [Insert [''h'', ''example'']];
        domain_add_rrset t 2 (nsec3_param_rrset 2 iter_octets)
      }),
      zones = Map.empty(7 \<mapsto> \<lparr>apex = 1, nsec3_rrset = None, nsec3_last = None\<rparr>)\<rparr>"



definition hash_h :: hash_fn where
  "hash_h salt saltlength n iterations = [''h'']"

subsection \<open>Searching\<close>

lemma tree_ok_entry:
  "tree_ok table \<Longrightarrow> (n, d) \<in> set (nametree table) \<Longrightarrow>
   \<exists>x. region table d = Some x \<and> dname x = n \<and>
       (n \<noteq> [] \<longrightarrow> (\<exists>p. parent x = Some p \<and> (tl n, p) \<in> set (nametree table)))"
proof -
  assume ok: "tree_ok table" and m: "(n, d) \<in> set (nametree table)"
  from ok m have "case region table d of
          None \<Rightarrow> False
        | Some x \<Rightarrow> dname x = n \<and>
            (n \<noteq> [] \<longrightarrow>
               (case parent x of None \<Rightarrow> False
                | Some p \<Rightarrow> (tl n, p) \<in> set (nametree table)))"
    unfolding tree_ok_def list_all_iff by blast
  then show ?thesis by (auto split: option.splits)
qed

lemma find_less_equal_exact:
  "radname_find_less_equal t q = Some (True, e) \<Longrightarrow> (q, e) \<in> set t"
  by (induction t) (auto split: if_splits option.splits)

lemma find_less_equal_none:
  "sorted_wrt (\<lambda>a b. rev (fst a) < rev (fst b)) t \<Longrightarrow> radname_find_less_equal t q = None \<Longrightarrow>
   (k, e) \<in> set t \<Longrightarrow> rev q < rev k"
proof (induction t)
  case Nil
  then show ?case by simp
next
  case (Cons a t)
  obtain k0 e0 where a: "a = (k0, e0)" by (cases a)
  from Cons.prems(2) a have ne: "k0 \<noteq> q" and nl: "\<not> rev k0 < rev q"
    by (auto split: if_splits option.splits)
  then have lt: "rev q < rev k0" by (metis linorder_neqE rev_is_rev_conv)
  show ?case
  proof (cases "(k, e) = a")
    case True
    then show ?thesis using lt a by simp
  next
    case False
    then have "(k, e) \<in> set t" using Cons.prems(3) by simp
    then have "rev k0 < rev k" using Cons.prems(1) a by auto
    then show ?thesis using lt by simp
  qed
qed

lemma find_less_equal_found:
  "sorted_wrt (\<lambda>a b. rev (fst a) < rev (fst b)) t \<Longrightarrow>
   radname_find_less_equal t q = Some (ex, e) \<Longrightarrow>
   (ex \<longrightarrow> (q, e) \<in> set t) \<and>
   (\<not> ex \<longrightarrow> q \<notin> fst ` set t \<and>
      (\<exists>k. (k, e) \<in> set t \<and> rev k < rev q \<and>
           (\<forall>(k1, e1) \<in> set t. rev k1 \<le> rev q \<longrightarrow> rev k1 \<le> rev k)))"
proof (induction t arbitrary: ex e)
  case Nil
  then show ?case by simp
next
  case (Cons a t)
  obtain k0 e0 where a: "a = (k0, e0)" by (cases a)
  have st: "sorted_wrt (\<lambda>a b. rev (fst a) < rev (fst b)) t"
    and hd: "\<And>k1 e1. (k1, e1) \<in> set t \<Longrightarrow> rev k0 < rev k1"
    using Cons.prems(1) a by auto
  show ?case
  proof (cases "k0 = q")
    case True
    then have "ex" "e = e0" using Cons.prems(2) a by auto
    then show ?thesis using a True by simp
  next
    case ne: False
    then have lt: "rev k0 < rev q" using Cons.prems(2) a by (auto split: if_splits)
    show ?thesis
    proof (cases "radname_find_less_equal t q")
      case None
      then have r: "\<not> ex" "e = e0" using Cons.prems(2) a ne lt by auto
      have above: "\<And>k1 e1. (k1, e1) \<in> set t \<Longrightarrow> rev q < rev k1"
        using find_less_equal_none[OF st None] by blast
      have "q \<notin> fst ` set (a # t)"
        using a ne above by force
      moreover have "\<forall>(k1, e1) \<in> set (a # t). rev k1 \<le> rev q \<longrightarrow> rev k1 \<le> rev k0"
        using a above by force
      ultimately show ?thesis using r a lt by auto
    next
      case (Some r)
      then have r: "radname_find_less_equal t q = Some (ex, e)"
        using Cons.prems(2) a ne lt by auto
      note ih = Cons.IH[OF st r]
      show ?thesis
      proof (cases ex)
        case True
        then show ?thesis using ih by simp
      next
        case False
        with ih obtain k where k: "q \<notin> fst ` set t" "(k, e) \<in> set t" "rev k < rev q"
          "\<forall>(k1, e1) \<in> set t. rev k1 \<le> rev q \<longrightarrow> rev k1 \<le> rev k"
          by auto
        have "rev k0 \<le> rev k" using hd[OF k(2)] by simp
        then have "\<forall>(k1, e1) \<in> set (a # t). rev k1 \<le> rev q \<longrightarrow> rev k1 \<le> rev k"
          using k(4) a by auto
        moreover have "q \<notin> fst ` set (a # t)" using k(1) a ne by auto
        ultimately show ?thesis using False k(2,3) by auto
      qed
    qed
  qed
qed

lemma prefix_le_list: "prefix (a :: 'a :: linorder list) b \<Longrightarrow> a \<le> b"
proof (induction a arbitrary: b)
  case Nil
  then show ?case by simp
next
  case (Cons x a)
  then obtain b1 where "b = x # b1" "prefix a b1" by (cases b) auto
  then show ?case using Cons.IH by simp
qed

lemma encloser_is_common_prefix:
  "(p :: 'a :: linorder list) < q \<Longrightarrow> prefix s q \<Longrightarrow> s \<le> p \<Longrightarrow>
   prefix s (longest_common_prefix p q)"
proof (induction p q arbitrary: s rule: longest_common_prefix.induct)
  case (1 x xs y ys)
  show ?case
  proof (cases s)
    case Nil
    then show ?thesis by simp
  next
    case (Cons z s1)
    then have z: "z = y" "prefix s1 ys" using "1.prems"(2) by auto
    show ?thesis
    proof (cases "x = y")
      case True
      then have "xs < ys" "s1 \<le> xs" using "1.prems" Cons z by auto
      then show ?thesis using "1.IH"[OF True _ z(2)] True Cons z by simp
    next
      case False
      then show ?thesis using "1.prems" Cons z by auto
    qed
  qed
qed simp_all

lemma climb_reaches:
  assumes ok: "tree_ok table"
  shows "(n, d) \<in> set (nametree table) \<Longrightarrow> k \<le> length n \<Longrightarrow>
         \<exists>e. climb (region table) (k + 1) d = Some e \<and>
             (drop (length n - k) n, e) \<in> set (nametree table)"
proof (induction n arbitrary: d)
  case Nil
  then obtain x where "region table d = Some x" "dname x = []"
    using tree_ok_entry[OF ok] by blast
  then show ?case using Nil
    by (subst climb.simps) (simp add: label_count_def)
next
  case (Cons l n)
  from Cons.prems(1) ok obtain x p where
    x: "region table d = Some x" "dname x = l # n" "parent x = Some p"
    "(n, p) \<in> set (nametree table)"
    using tree_ok_entry[OF ok, of "l # n" d] by auto
  show ?case
  proof (cases "k = length (l # n)")
    case True
    then show ?thesis using x Cons.prems(1)
      by (subst climb.simps) (simp add: label_count_def)
  next
    case False
    then have k: "k \<le> length n" using Cons.prems(2) by simp
    from Cons.IH[OF x(4) k] obtain e where
      e: "climb (region table) (k + 1) p = Some e"
      "(drop (length n - k) n, e) \<in> set (nametree table)" by blast
    have "drop (length (l # n) - k) (l # n) = drop (length n - k) n"
      using k by (simp add: Suc_diff_le)
    moreover have "climb (region table) (k + 1) d = Some e"
      using x e(1) k by (subst climb.simps) (simp add: label_count_def)
    ultimately show ?thesis using e(2) by simp
  qed
qed

lemma domain_table_search_spec:
  assumes "tree_ok table"
  shows "\<exists>exact cm ce c.
           domain_table_search table q = Some (exact, cm, ce) \<and>
           region table ce = Some c \<and> (dname c, ce) \<in> set (nametree table) \<and>
           suffix (dname c) q \<and>
           (\<forall>(s, e) \<in> set (nametree table). suffix s q \<longrightarrow> length s \<le> length (dname c)) \<and>
           (exact \<longleftrightarrow> q \<in> fst ` set (nametree table)) \<and>
           (exact \<longrightarrow> dname c = q \<and> cm = ce)"
proof -
  let ?t = "nametree table"
  have st: "sorted_wrt (\<lambda>a b. rev (fst a) < rev (fst b)) ?t"
    and rt: "([], root table) \<in> set ?t"
    using assms by (auto simp: tree_ok_def)
  have ent: "\<And>n d. (n, d) \<in> set ?t \<Longrightarrow> \<exists>x. region table d = Some x \<and> dname x = n"
    using tree_ok_entry[OF assms] by blast
  have "radname_find_less_equal ?t q \<noteq> None"
  proof
    assume "radname_find_less_equal ?t q = None"
    from find_less_equal_none[OF st this rt] show False by simp
  qed
  then obtain ex cm where f: "radname_find_less_equal ?t q = Some (ex, cm)"
    by (cases "radname_find_less_equal ?t q") auto
  note fd = find_less_equal_found[OF st f]
  show ?thesis
  proof (cases ex)
    case True
    then have m: "(q, cm) \<in> set ?t" using fd by simp
    from ent[OF m] obtain c where c: "region table cm = Some c" "dname c = q" by blast
    have s: "domain_table_search table q = Some (True, cm, cm)"
      using f True by (simp add: domain_table_search_def)
    have "\<forall>(s, e) \<in> set ?t. suffix s q \<longrightarrow> length s \<le> length q"
      by (auto dest: suffix_length_le)
    moreover have "q \<in> fst ` set ?t" using m by force
    ultimately show ?thesis using s c m by auto
  next
    case False
    with fd obtain p where p: "q \<notin> fst ` set ?t" "(p, cm) \<in> set ?t" "rev p < rev q"
      "\<forall>(k1, e1) \<in> set ?t. rev k1 \<le> rev q \<longrightarrow> rev k1 \<le> rev p"
      by auto
    from ent[OF p(2)] obtain x where x: "region table cm = Some x" "dname x = p" by blast
    let ?c = "longest_common_prefix (rev p) (rev q)"
    have c1: "prefix ?c (rev p)" and c2: "prefix ?c (rev q)"
      by (rule longest_common_prefix_prefix1, rule longest_common_prefix_prefix2)
    have lp: "length ?c \<le> length p" using prefix_length_le[OF c1] by simp
    have lq: "length ?c < length q"
    proof (rule ccontr)
      assume "\<not> length ?c < length q"
      then have "length ?c = length (rev q)" using prefix_length_le[OF c2] by simp
      moreover obtain zs where zs: "rev q = ?c @ zs" using c2 by (auto simp: prefix_def)
      ultimately have "length zs = 0"
        by (metis add_cancel_right_right length_append)
      then have "?c = rev q" using zs by simp
      then have "rev q \<le> rev p" using prefix_le_list[OF c1] by simp
      then show False using p(3) by simp
    qed
    from climb_reaches[OF assms p(2) lp] obtain ce where
      ce: "climb (region table) (length ?c + 1) cm = Some ce"
      "(drop (length p - length ?c) p, ce) \<in> set ?t" by blast
    have nm: "drop (length p - length ?c) p = rev ?c"
    proof -
      have "?c = take (length ?c) (rev p)" using c1 by (metis append_eq_conv_conj prefixE)
      then have "rev ?c = rev (take (length ?c) (rev p))" by simp
      then show ?thesis by (simp add: rev_take)
    qed
    from ent[OF ce(2)] obtain c where c: "region table ce = Some c" "dname c = rev ?c"
      using nm by auto
    have s: "domain_table_search table q = Some (False, cm, ce)"
      using f False x ce(1) lq
      by (simp add: domain_table_search_def dname_label_match_count_def label_count_def)
    have suf: "suffix (rev ?c) q"
      using c2 by (metis rev_rev_ident suffix_to_prefix)
    have longest: "\<forall>(s, e) \<in> set ?t. suffix s q \<longrightarrow> length s \<le> length (rev ?c)"
    proof (clarify)
      fix s e assume m: "(s, e) \<in> set ?t" and sq: "suffix s q"
      have ps: "prefix (rev s) (rev q)" using sq by (simp add: suffix_to_prefix)
      then have "rev s \<le> rev q" by (rule prefix_le_list)
      then have "rev s \<le> rev p" using p(4) m by auto
      from encloser_is_common_prefix[OF p(3) ps this]
      have "prefix (rev s) ?c" .
      then show "length s \<le> length (rev ?c)" using prefix_length_le by fastforce
    qed
    show ?thesis
      using s c ce(2) nm suf longest p(1) by auto
  qed
qed



subsection \<open>The NSEC3 parameters\<close>

lemma iterations_bits:
  fixes b0 b1 b2 :: byte
  shows "push_bit 16 (uint b0) OR push_bit 8 (uint b1) OR uint b2 =
         uint b0 * 65536 + uint b1 * 256 + uint b2"
proof -
  have "push_bit 8 (uint b1) OR uint b2 = push_bit 8 (uint b1) + uint b2"
    by (rule disjunctive_add[symmetric])
      (auto simp: bit_push_bit_iff bit_uint_iff dest: bit_imp_le_length)
  moreover have "push_bit 16 (uint b0) OR (push_bit 8 (uint b1) + uint b2) =
      push_bit 16 (uint b0) + (push_bit 8 (uint b1) + uint b2)"
  proof (rule disjunctive_add[symmetric])
    fix n
    have "uint b1 < 2 ^ 8" "uint b2 < 2 ^ 8" using uint_bounded[of b1] uint_bounded[of b2] by simp_all
    then have "push_bit 8 (uint b1) + uint b2 < 2 ^ 16" by (simp add: push_bit_eq_mult)
    then have "16 \<le> n \<Longrightarrow> \<not> bit (push_bit 8 (uint b1) + uint b2) n"
      by (metis bit_take_bit_iff not_less take_bit_int_eq_self add_nonneg_nonneg
          push_bit_nonnegative_int_iff uint_ge_0)
    then show "\<not> bit (push_bit 16 (uint b0)) n \<or> \<not> bit (push_bit 8 (uint b1) + uint b2) n"
      by (auto simp: bit_push_bit_iff)
  qed
  ultimately show ?thesis by (simp add: push_bit_eq_mult or.assoc)
qed

lemma masked_bounds:
  fixes f :: int
  assumes "0 \<le> f"
  shows "0 \<le> f AND 0x7fffff" "f AND 0x7fffff \<le> 0x7fffff" "f \<le> 0x7fffff \<Longrightarrow> f AND 0x7fffff = f"
proof -
  have m: "(0x7fffff :: int) = mask 23" by (simp add: mask_eq_exp_minus_1)
  show "0 \<le> f AND 0x7fffff" using assms by simp
  show "f AND 0x7fffff \<le> 0x7fffff" by (rule AND_upper2) simp
  assume "f \<le> 0x7fffff"
  then have "f < 2 ^ 23" by simp
  then have "take_bit 23 f = f" using assms by (simp add: take_bit_int_eq_self)
  then show "f AND 0x7fffff = f" unfolding m by (simp add: take_bit_eq_mask)
qed

text \<open>
  C1: on a well-formed table, which holds the root, \<^verbatim>\<open>domain_table_search\<close> returns; the
  closest encloser is a domain of the table whose name is a suffix of the name looked up,
  no name of the table that is a suffix of it is longer, \<open>exact\<close> says whether the name
  is in the table, and then the closest encloser (and the closest match) is its domain.
\<close>

theorem domain_table_search_closest_encloser:
  assumes "tree_ok table"
  shows "\<exists>exact cm ce c.
           domain_table_search table q = Some (exact, cm, ce) \<and>
           region table ce = Some c \<and> (dname c, ce) \<in> set (nametree table) \<and>
           suffix (dname c) q \<and>
           (\<forall>(s, e) \<in> set (nametree table). suffix s q \<longrightarrow> length s \<le> length (dname c)) \<and>
           (exact \<longleftrightarrow> q \<in> fst ` set (nametree table)) \<and>
           (exact \<longrightarrow> dname c = q \<and> cm = ce)"
  using assms by (rule domain_table_search_spec)

theorem domain_table_search_closest_encloser_witness:
  "tree_ok two_hosts \<and>
   nametree two_hosts = [([], 0), ([''com''], 1), ([''example'', ''com''], 2),
     ([''a'', ''example'', ''com''], 4), ([''www'', ''example'', ''com''], 3)] \<and>
   domain_table_search two_hosts [''b'', ''a'', ''example'', ''com''] = Some (False, 4, 4) \<and>
   domain_table_search two_hosts [''zz'', ''example'', ''com''] = Some (False, 3, 2) \<and>
   domain_table_search two_hosts [''example'', ''com''] = Some (True, 2, 2) \<and>
   domain_table_search two_hosts [''org''] = Some (False, 3, 0) \<and>
   (\<exists>exact cm ce c.
      domain_table_search two_hosts [''zz'', ''example'', ''com''] = Some (exact, cm, ce) \<and>
      region two_hosts ce = Some c \<and> suffix (dname c) [''zz'', ''example'', ''com''])"
proof -
  have ok: "tree_ok two_hosts" by code_simp
  have t: "nametree two_hosts = [([], 0), ([''com''], 1), ([''example'', ''com''], 2),
     ([''a'', ''example'', ''com''], 4), ([''www'', ''example'', ''com''], 3)]" by code_simp
  have s: "domain_table_search two_hosts [''b'', ''a'', ''example'', ''com''] = Some (False, 4, 4)"
    "domain_table_search two_hosts [''zz'', ''example'', ''com''] = Some (False, 3, 2)"
    "domain_table_search two_hosts [''example'', ''com''] = Some (True, 2, 2)"
    "domain_table_search two_hosts [''org''] = Some (False, 3, 0)"
    by code_simp+
  from domain_table_search_closest_encloser[OF ok, of "[''zz'', ''example'', ''com'']"]
  have "\<exists>exact cm ce c.
      domain_table_search two_hosts [''zz'', ''example'', ''com''] = Some (exact, cm, ce) \<and>
      region two_hosts ce = Some c \<and> suffix (dname c) [''zz'', ''example'', ''com'']"
    by blast
  then show ?thesis using ok t s by blast
qed

text \<open>
  C6, as amended: the iteration count of a zone is the 24-bit field of the parameter record
  with its top bit masked off.
\<close>

theorem detect_nsec3_params_masks:
  assumes "iterations_field r = Some field" and "salt_field r = Some (salt_len # salt)"
    and "nsec3_rrset zone = Some r" and "region table (apex zone) = Some a"
  shows "detect_nsec3_params r = Some (salt, uint salt_len, field AND 0x7fffff) \<and>
         0 \<le> field AND 0x7fffff \<and> field AND 0x7fffff \<le> 0x7fffff \<and>
         (field \<le> 0x7fffff \<longrightarrow> field AND 0x7fffff = field) \<and>
         nsec3_hash_dname hashfn table zone n =
           Some (hashfn salt (uint salt_len) n (field AND 0x7fffff) @ dname a)"
proof -
  from assms(1) obtain rr0 a1 d1 b0 b1 b2 where
    f: "at (rrs r) 0 = Some rr0" "at (rdatas rr0) 1 = Some a1" "rdata_atom_data a1 = Some d1"
    "at d1 0 = Some b0" "at d1 1 = Some b1" "at d1 2 = Some b2"
    "field = uint b0 * 65536 + uint b1 * 256 + uint b2"
    by (auto simp: iterations_field_def bind_eq_Some_conv)
  from assms(2) f(1) obtain a2 where
    s: "at (rdatas rr0) 2 = Some a2" "rdata_atom_data a2 = Some (salt_len # salt)"
    by (auto simp: salt_field_def bind_eq_Some_conv)
  have d: "detect_nsec3_params r = Some (salt, uint salt_len, field AND 0x7fffff)"
    using f s by (simp add: detect_nsec3_params_def iterations_bits at_def)
  have nn: "0 \<le> field" using f(7) by simp
  have h: "nsec3_hash_dname hashfn table zone n =
           Some (hashfn salt (uint salt_len) n (field AND 0x7fffff) @ dname a)"
    using d assms(3,4) by (simp add: nsec3_hash_dname_def)
  show ?thesis using d h masked_bounds[OF nn] by blast
qed

theorem detect_nsec3_params_masks_witness:
  "iterations_field (nsec3_param_rrset 2 [0x7f, 0xff, 0xff]) = Some 0x7fffff \<and>
   salt_field (nsec3_param_rrset 2 [0x7f, 0xff, 0xff]) = Some [0] \<and>
   detect_nsec3_params (nsec3_param_rrset 2 [0x7f, 0xff, 0xff]) = Some ([], 0, 0x7fffff) \<and>
   nsec3_hash_dname hash_h (domains (hashed_zone [0x7f, 0xff, 0xff]))
     \<lparr>apex = 1, nsec3_rrset = Some (nsec3_param_rrset 2 [0x7f, 0xff, 0xff]), nsec3_last = Some 2\<rparr>
     [''example''] = Some [''h'', ''example''] \<and>
   detect_nsec3_params (nsec3_param_rrset 2 [0, 0, 0]) = Some ([], 0, 0)"
proof -
  let ?r = "nsec3_param_rrset 2 [0x7f, 0xff, 0xff]"
  let ?z = "\<lparr>apex = 1, nsec3_rrset = Some ?r, nsec3_last = Some 2\<rparr>"
  have f: "iterations_field ?r = Some 0x7fffff" by code_simp
  have s: "salt_field ?r = Some [0]" by code_simp
  have a: "region (domains (hashed_zone [0x7f, 0xff, 0xff])) (apex ?z) \<noteq> None" by code_simp
  then obtain x where x: "region (domains (hashed_zone [0x7f, 0xff, 0xff])) (apex ?z) = Some x"
    by blast
  have n: "map_option dname (region (domains (hashed_zone [0x7f, 0xff, 0xff])) (apex ?z)) = Some [''example'']"
    by code_simp
  have z: "detect_nsec3_params (nsec3_param_rrset 2 [0, 0, 0]) = Some ([], 0, 0)" by code_simp
  from detect_nsec3_params_masks[where zone = ?z and hashfn = hash_h and n = "[''example'']",
      OF f s _ x] n x f s z
  show ?thesis by (simp add: hash_h_def)
qed

text \<open>
  C6 as it is written fails: a parameter record with the field above 0x7fffff is taken as
  the parameter record of the zone, with the count 5.
\<close>

theorem nsec3_iterations_counterexample:
  "iterations_field (nsec3_param_rrset 2 [0x80, 0, 5]) = Some 0x800005 \<and>
   (0x7fffff :: int) < 0x800005 \<and>
   prehash_zone_settings hash_h (hashed_zone [0x80, 0, 5]) 7 =
     Some \<lparr>apex = 1, nsec3_rrset = Some (nsec3_param_rrset 2 [0x80, 0, 5]), nsec3_last = Some 2\<rparr> \<and>
   detect_nsec3_params (nsec3_param_rrset 2 [0x80, 0, 5]) = Some ([], 0, 5)"
  by code_simp

subsection \<open>The order of the tree\<close>





lemma radix_next_nth:
  "distinct (map snd t) \<Longrightarrow> i < length t \<Longrightarrow>
   radix_next t (snd (t ! i)) = (if Suc i < length t then Some (snd (t ! Suc i)) else None)"
proof (induction t "snd (t ! i)" arbitrary: i rule: radix_next.induct)
  case 1
  then show ?case by simp
next
  case (2 k x)
  then show ?case by simp
next
  case (3 k x k1 x1 t)
  show ?case
  proof (cases i)
    case 0
    then show ?thesis by simp
  next
    case (Suc i1)
    have "((k1, x1) # t) ! i1 \<in> set ((k1, x1) # t)"
      using "3.prems" Suc by (intro nth_mem) simp
    then have "snd (((k1, x1) # t) ! i1) \<in> snd ` set ((k1, x1) # t)" by (rule imageI)
    then have ne: "x \<noteq> snd (((k, x) # (k1, x1) # t) ! i)"
      using "3.prems" Suc by auto
    have "radix_next ((k1, x1) # t) (snd (((k1, x1) # t) ! i1)) =
          (if Suc i1 < length ((k1, x1) # t) then Some (snd (((k1, x1) # t) ! Suc i1)) else None)"
      using "3.hyps"[of i1] ne "3.prems" Suc by simp
    then show ?thesis using ne Suc by simp
  qed
qed



subsection \<open>The covering NSEC3\<close>







end
